theory Spec2Isabelle
  imports Main
begin

section \<open>JavaScript values\<close>

text \<open>
  The adapter (\<^verbatim>\<open>src/adapters/knex.js\<close>) receives filter specifications, query
  parameters and entities as plain JavaScript values. They are modelled as a JSON-like
  datatype. An object is the list of its own enumerable entries in the order
  \<^verbatim>\<open>Object.entries\<close> yields them. Numbers are integers here: the adapter only tests
  numbers against zero and passes them on.
\<close>

datatype jsval =
    JUndefined
  | JNull
  | JBool bool
  | JNum int
  | JStr string
  | JArr "jsval list"
  | JObj "(string \<times> jsval) list"

text \<open>\<^verbatim>\<open>typeof v\<close>.\<close>

fun typeof :: "jsval \<Rightarrow> string" where
  "typeof JUndefined = ''undefined''"
| "typeof JNull = ''object''"
| "typeof (JBool b) = ''boolean''"
| "typeof (JNum n) = ''number''"
| "typeof (JStr s) = ''string''"
| "typeof (JArr xs) = ''object''"
| "typeof (JObj es) = ''object''"

text \<open>\<^verbatim>\<open>Array.isArray(v)\<close>, and the elements of an array.\<close>

fun isArray :: "jsval \<Rightarrow> bool" where
  "isArray (JArr xs) = True"
| "isArray v = False"

fun elements :: "jsval \<Rightarrow> jsval list" where
  "elements (JArr xs) = xs"
| "elements v = []"

text \<open>\<^verbatim>\<open>Object.entries(v)\<close> of a plain object.\<close>

fun entries :: "jsval \<Rightarrow> (string \<times> jsval) list" where
  "entries (JObj es) = es"
| "entries v = []"

text \<open>Truthiness: what \<^verbatim>\<open>if (v)\<close>, \<^verbatim>\<open>!v\<close> and \<^verbatim>\<open>a || b\<close> test.\<close>

fun truthy :: "jsval \<Rightarrow> bool" where
  "truthy JUndefined = False"
| "truthy JNull = False"
| "truthy (JBool b) = b"
| "truthy (JNum n) = (n \<noteq> 0)"
| "truthy (JStr s) = (s \<noteq> [])"
| "truthy (JArr xs) = True"
| "truthy (JObj es) = True"

text \<open>
  Property access \<^verbatim>\<open>v[name]\<close> for the property names the adapter reads (never
  \<^verbatim>\<open>length\<close> or an index). On \<^verbatim>\<open>null\<close> and \<^verbatim>\<open>undefined\<close> it throws a TypeError;
  on any other value without that property it is \<^verbatim>\<open>undefined\<close>.
\<close>

datatype error =
    TypeError
  | ConfigError string
  | StoreError string

fun lookup :: "(string \<times> jsval) list \<Rightarrow> string \<Rightarrow> jsval" where
  "lookup [] name = JUndefined"
| "lookup ((k, v) # es) name = (if k = name then v else lookup es name)"

fun getProp :: "jsval \<Rightarrow> string \<Rightarrow> error + jsval" where
  "getProp JUndefined name = Inl TypeError"
| "getProp JNull name = Inl TypeError"
| "getProp (JObj es) name = Inr (lookup es name)"
| "getProp v name = Inr JUndefined"

section \<open>The predicate builder\<close>

text \<open>
  The query builder is an object of the knex library; the adapter only calls its
  methods. A builder is modelled as the list of the calls made on it, oldest first.
  A call that takes a callback (\<^verbatim>\<open>q.where(builder => ...)\<close>) hands the callback a fresh
  builder; the call is recorded with the calls the callback made on that inner builder.
  The library runs the callback when it compiles the query; an exception thrown inside
  it is the failure of the query, and the model reports it when the group is opened.
\<close>

datatype stmt =
    Count
  | WhereIn string "jsval list"
  | WhereNotIn string "jsval list"
  | Where3 jsval string jsval
  | OrWhere3 jsval string jsval
  | WhereNotNull string
  | WhereNull string
  | WhereFn "stmt list"
  | OrWhereFn "stmt list"
  | WhereNotFn "stmt list"
  | WhereNot2 string jsval
  | WhereRaw jsval jsval
  | Where2 string jsval
  | OrderByRaw string
  | OrderBy string string
  | Limit jsval
  | Offset jsval

type_synonym builder = "stmt list"

text \<open>
  The three builder methods \<^verbatim>\<open>assignQueryArrayElements\<close> selects by name
  (\<^verbatim>\<open>builder[fn](callback)\<close>).
\<close>

datatype groupfn = FnWhere | FnOrWhere | FnWhereNot

fun call_group :: "groupfn \<Rightarrow> builder \<Rightarrow> stmt" where
  "call_group FnWhere inner = WhereFn inner"
| "call_group FnOrWhere inner = OrWhereFn inner"
| "call_group FnWhereNot inner = WhereNotFn inner"

section \<open>computeQuery\<close>

lemma size_elements:
  "isArray v \<Longrightarrow> size_list size (elements v) < size v"
  by (cases v) simp_all

lemma size_entries:
  "truthy v \<Longrightarrow> typeof v = ''object'' \<Longrightarrow> \<not> isArray v \<Longrightarrow>
   size_list (size_prod (\<lambda>_. 0) size) (entries v) < size v"
  by (cases v) simp_all

text \<open>
  \<^verbatim>\<open>computeQuery(q, query, fieldName = '')\<close> (lines 415-475). \<open>whereEntry\<close> is the
  body of the \<^verbatim>\<open>Object.entries(query).forEach\<close> callback, \<open>forEachEntry\<close> the loop,
  \<open>assignQueryArrayElements\<close> the inner closure with its index \<open>i\<close>; its default
  \<^verbatim>\<open>everyOtherElementQuery = ''\<close> is \<open>None\<close>.
\<close>

function
  computeQuery :: "builder \<Rightarrow> jsval \<Rightarrow> string \<Rightarrow> error + builder" and
  forEachEntry :: "builder \<Rightarrow> (string \<times> jsval) list \<Rightarrow> string \<Rightarrow> error + builder" and
  whereEntry :: "builder \<Rightarrow> string \<Rightarrow> jsval \<Rightarrow> string \<Rightarrow> error + builder" and
  assignQueryArrayElements ::
    "builder \<Rightarrow> jsval list \<Rightarrow> groupfn \<Rightarrow> groupfn option \<Rightarrow> nat \<Rightarrow> string \<Rightarrow> error + builder"
where
  "computeQuery q query fieldName =
     (if \<not> truthy query \<or> typeof query \<noteq> ''object'' \<or> isArray query then Inr q
      else forEachEntry q (entries query) fieldName)"
| "forEachEntry q [] fieldName = Inr q"
| "forEachEntry q (e # es) fieldName =
     (case whereEntry q (fst e) (snd e) fieldName of
        Inl err \<Rightarrow> Inl err
      | Inr q' \<Rightarrow> forEachEntry q' es fieldName)"
| "whereEntry q key fieldValue fieldName =
     (if key = ''$in'' \<and> isArray fieldValue then
        Inr (q @ [WhereIn fieldName (elements fieldValue)])
      else if key = ''$nin'' \<and> isArray fieldValue then
        Inr (q @ [WhereNotIn fieldName (elements fieldValue)])
      else if key = ''$gt'' then Inr (q @ [Where3 (JStr fieldName) ''>'' fieldValue])
      else if key = ''$gte'' then Inr (q @ [Where3 (JStr fieldName) ''>='' fieldValue])
      else if key = ''$lt'' then Inr (q @ [Where3 (JStr fieldName) ''<'' fieldValue])
      else if key = ''$lte'' then Inr (q @ [Where3 (JStr fieldName) ''<='' fieldValue])
      else if key = ''$eq'' then Inr (q @ [Where3 (JStr fieldName) ''='' fieldValue])
      else if key = ''$ne'' then Inr (q @ [Where3 (JStr fieldName) ''!='' fieldValue])
      else if key = ''$exists'' \<and> fieldValue = JBool True then
        Inr (q @ [WhereNotNull fieldName])
      else if key = ''$exists'' \<and> fieldValue = JBool False then
        Inr (q @ [WhereNull fieldName])
      else if key = ''$or'' \<and> isArray fieldValue then
        (case assignQueryArrayElements [] (elements fieldValue) FnWhere (Some FnOrWhere) 0 fieldName of
           Inl err \<Rightarrow> Inl err
         | Inr inner \<Rightarrow> Inr (q @ [WhereFn inner]))
      else if key = ''$and'' \<and> isArray fieldValue then
        (case assignQueryArrayElements [] (elements fieldValue) FnWhere None 0 fieldName of
           Inl err \<Rightarrow> Inl err
         | Inr inner \<Rightarrow> Inr (q @ [WhereFn inner]))
      else if key = ''$nor'' \<and> isArray fieldValue then
        (case assignQueryArrayElements [] (elements fieldValue) FnWhereNot None 0 fieldName of
           Inl err \<Rightarrow> Inl err
         | Inr inner \<Rightarrow> Inr (q @ [WhereFn inner]))
      else if key = ''$not'' then
        (if typeof fieldValue = ''object'' then
           (case computeQuery [] fieldValue fieldName of
              Inl err \<Rightarrow> Inl err
            | Inr inner \<Rightarrow> Inr (q @ [WhereNotFn inner]))
         else Inr (q @ [WhereNot2 fieldName fieldValue]))
      else if key = ''$raw'' then
        (if typeof fieldValue = ''string'' then Inr (q @ [WhereRaw fieldValue JUndefined])
         else if typeof fieldValue = ''object'' then
           (case getProp fieldValue ''condition'' of
              Inl err \<Rightarrow> Inl err
            | Inr c \<Rightarrow>
                (case getProp fieldValue ''bindings'' of
                   Inl err \<Rightarrow> Inl err
                 | Inr b \<Rightarrow> Inr (q @ [WhereRaw c b])))
         else Inr q)
      else if typeof fieldValue = ''object'' then
        (case computeQuery [] fieldValue key of
           Inl err \<Rightarrow> Inl err
         | Inr inner \<Rightarrow> Inr (q @ [WhereFn inner]))
      else if key = ''$ilike'' then Inr (q @ [Where3 (JStr fieldName) ''ilike'' fieldValue])
      else Inr (q @ [Where2 key fieldValue]))"
| "assignQueryArrayElements builder [] firstElementQuery everyOtherElementQuery i fieldName =
     Inr builder"
| "assignQueryArrayElements builder (query # rest) firstElementQuery everyOtherElementQuery i fieldName =
     (let fn = (if i = 0 then firstElementQuery
                else (case everyOtherElementQuery of
                        None \<Rightarrow> firstElementQuery
                      | Some other \<Rightarrow> other))
      in case computeQuery [] query fieldName of
           Inl err \<Rightarrow> Inl err
         | Inr inner \<Rightarrow>
             assignQueryArrayElements (builder @ [call_group fn inner]) rest
               firstElementQuery everyOtherElementQuery (Suc i) fieldName)"
  by pat_completeness auto
termination
  by (relation "measure (\<lambda>x. case x of
        Inl (Inl (q, query, f)) \<Rightarrow> 3 * size query + 2
      | Inl (Inr (q, es, f)) \<Rightarrow> 3 * size_list (size_prod (\<lambda>_. 0) size) es + 1
      | Inr (Inl (q, k, v, f)) \<Rightarrow> 3 * size v + 3
      | Inr (Inr (b, xs, m, n, i, f)) \<Rightarrow> 3 * size_list size xs + 1)")
    (auto simp: less_Suc_eq_le dest: size_elements size_entries)

declare computeQuery.simps [simp del] whereEntry.simps [simp del]

text \<open>
  The guards of the operator rules of \<open>whereEntry\<close>: the tests the chain makes
  before it reaches its last two branches.
\<close>

definition operatorRule :: "string \<Rightarrow> jsval \<Rightarrow> bool" where
  "operatorRule key fieldValue \<longleftrightarrow>
     (key = ''$in'' \<and> isArray fieldValue) \<or> (key = ''$nin'' \<and> isArray fieldValue) \<or>
     key = ''$gt'' \<or> key = ''$gte'' \<or> key = ''$lt'' \<or> key = ''$lte'' \<or>
     key = ''$eq'' \<or> key = ''$ne'' \<or>
     (key = ''$exists'' \<and> fieldValue = JBool True) \<or>
     (key = ''$exists'' \<and> fieldValue = JBool False) \<or>
     (key = ''$or'' \<and> isArray fieldValue) \<or> (key = ''$and'' \<and> isArray fieldValue) \<or>
     (key = ''$nor'' \<and> isArray fieldValue) \<or>
     key = ''$not'' \<or> key = ''$raw'' \<or> key = ''$ilike''"

section \<open>What a recorded where clause selects\<close>

text \<open>
  How the store decides each atomic predicate for the row under consideration. The
  adapter never evaluates a predicate itself, so the verdicts are a parameter. They
  are two-valued: a row whose compared column is \<^verbatim>\<open>NULL\<close> (where SQL answers
  \<^emph>\<open>unknown\<close>) is outside this reading.
\<close>

record rowsem =
  cmp :: "jsval \<Rightarrow> string \<Rightarrow> jsval \<Rightarrow> bool"
  isin :: "string \<Rightarrow> jsval list \<Rightarrow> bool"
  isnull :: "string \<Rightarrow> bool"
  rawcond :: "jsval \<Rightarrow> jsval \<Rightarrow> bool"

text \<open>
  How the recorded calls are read is the behaviour of the knex library, which is not
  part of the repository; it is modelled here from the library's query compiler. The
  builder compiles its where statements in call order. Each statement carries the
  connective it was called with (\<^verbatim>\<open>where\<close>, \<^verbatim>\<open>whereNot\<close>, \<^verbatim>\<open>whereIn\<close>, ... join with
  AND, \<^verbatim>\<open>orWhere\<close> with OR) and compiles to a condition or to nothing: a group whose
  callback added no condition is left out, negated or not. The conditions that remain
  are written one after the other with their connectives, the first one's connective
  dropped, and a group is parenthesised; in the resulting SQL, AND binds tighter than
  OR. Calls that are not where statements do not take part.
\<close>

datatype conn = And | Or

text \<open>
  The state while reading a clause left to right: \<open>None\<close> before the first condition,
  then the disjunction of the finished AND-runs and the value of the current run.
\<close>

fun joinCond :: "(bool \<times> bool) option \<Rightarrow> (conn \<times> bool) option \<Rightarrow> (bool \<times> bool) option" where
  "joinCond st None = st"
| "joinCond None (Some (c, v)) = Some (False, v)"
| "joinCond (Some (d, a)) (Some (And, v)) = Some (d, a \<and> v)"
| "joinCond (Some (d, a)) (Some (Or, v)) = Some (d \<or> a, v)"

fun closeCond :: "(bool \<times> bool) option \<Rightarrow> bool option" where
  "closeCond None = None"
| "closeCond (Some (d, a)) = Some (d \<or> a)"

fun withConn :: "conn \<Rightarrow> bool \<Rightarrow> bool option \<Rightarrow> (conn \<times> bool) option" where
  "withConn c neg None = None"
| "withConn c neg (Some v) = Some (c, if neg then \<not> v else v)"

fun stmtCond :: "rowsem \<Rightarrow> stmt \<Rightarrow> (conn \<times> bool) option" and
    whereState :: "rowsem \<Rightarrow> (bool \<times> bool) option \<Rightarrow> stmt list \<Rightarrow> (bool \<times> bool) option"
where
  "stmtCond I Count = None"
| "stmtCond I (WhereIn f vs) = Some (And, isin I f vs)"
| "stmtCond I (WhereNotIn f vs) = Some (And, \<not> isin I f vs)"
| "stmtCond I (Where3 col op v) = Some (And, cmp I col op v)"
| "stmtCond I (OrWhere3 col op v) = Some (Or, cmp I col op v)"
| "stmtCond I (WhereNotNull f) = Some (And, \<not> isnull I f)"
| "stmtCond I (WhereNull f) = Some (And, isnull I f)"
| "stmtCond I (WhereFn g) = withConn And False (closeCond (whereState I None g))"
| "stmtCond I (OrWhereFn g) = withConn Or False (closeCond (whereState I None g))"
| "stmtCond I (WhereNotFn g) = withConn And True (closeCond (whereState I None g))"
| "stmtCond I (WhereNot2 f v) = Some (And, \<not> cmp I (JStr f) ''='' v)"
| "stmtCond I (WhereRaw c b) = Some (And, rawcond I c b)"
| "stmtCond I (Where2 f v) = Some (And, cmp I (JStr f) ''='' v)"
| "stmtCond I (OrderByRaw s) = None"
| "stmtCond I (OrderBy f d) = None"
| "stmtCond I (Limit n) = None"
| "stmtCond I (Offset n) = None"
| "whereState I st [] = st"
| "whereState I st (s # ss) = whereState I (joinCond st (stmtCond I s)) ss"

definition whereCond :: "rowsem \<Rightarrow> builder \<Rightarrow> bool option" where
  "whereCond I q = closeCond (whereState I None q)"

text \<open>A row is selected when the clause is empty or its condition holds.\<close>

definition selects :: "rowsem \<Rightarrow> builder \<Rightarrow> bool" where
  "selects I q = (case whereCond I q of None \<Rightarrow> True | Some v \<Rightarrow> v)"

section \<open>Boolean evaluation of a filter spec\<close>

text \<open>
  The fragment of filter specs built from \<^verbatim>\<open>$and\<close>, \<^verbatim>\<open>$or\<close>, \<^verbatim>\<open>$not\<close> and \<^verbatim>\<open>$nor\<close>
  over the atomic comparisons \<^verbatim>\<open>$gt $gte $lt $lte $eq $ne $in $nin\<close>, with a field
  name scoping a nested mapping (\<^verbatim>\<open>{age: {$gt: 5}}\<close>). \<open>entryKind\<close> names the reading
  of one entry in that fragment; every other entry is \<open>KOther\<close>.
\<close>

datatype kind = KIn | KNin | KCmp string | KAnd | KOr | KNor | KNot | KScope | KOther

definition isMapping :: "jsval \<Rightarrow> bool" where
  "isMapping v \<longleftrightarrow> truthy v \<and> typeof v = ''object'' \<and> \<not> isArray v"

definition entryKind :: "string \<Rightarrow> jsval \<Rightarrow> kind" where
  "entryKind key v =
     (if key = ''$in'' then (if isArray v then KIn else KOther)
      else if key = ''$nin'' then (if isArray v then KNin else KOther)
      else if key = ''$gt'' then KCmp ''>''
      else if key = ''$gte'' then KCmp ''>=''
      else if key = ''$lt'' then KCmp ''<''
      else if key = ''$lte'' then KCmp ''<=''
      else if key = ''$eq'' then KCmp ''=''
      else if key = ''$ne'' then KCmp ''!=''
      else if key = ''$and'' then (if isArray v then KAnd else KOther)
      else if key = ''$or'' then (if isArray v then KOr else KOther)
      else if key = ''$nor'' then (if isArray v then KNor else KOther)
      else if key = ''$not'' then (if isMapping v then KNot else KOther)
      else if key = ''$exists'' \<or> key = ''$raw'' \<or> key = ''$ilike'' then KOther
      else if isMapping v then KScope
      else KOther)"

lemma size_element: "x \<in> set (elements v) \<Longrightarrow> size x < size v"
  by (cases v) (auto simp: less_Suc_eq_le size_list_estimation')

lemma size_entry: "e \<in> set es \<Longrightarrow> size (snd e) < Suc (size_list (size_prod (\<lambda>_. 0) size) es)"
  by (induction es) (auto simp: less_Suc_eq_le)

text \<open>The specs of the fragment: a mapping all of whose entries are of the fragment.\<close>

function pureSpec :: "jsval \<Rightarrow> bool" and pureEntry :: "string \<Rightarrow> jsval \<Rightarrow> bool" where
  "pureSpec (JObj es) = list_all (\<lambda>e. pureEntry (fst e) (snd e)) es"
| "pureSpec JUndefined = False"
| "pureSpec JNull = False"
| "pureSpec (JBool b) = False"
| "pureSpec (JNum n) = False"
| "pureSpec (JStr s) = False"
| "pureSpec (JArr xs) = False"
| "pureEntry key v =
     (case entryKind key v of
        KIn \<Rightarrow> True | KNin \<Rightarrow> True | KCmp op \<Rightarrow> True
      | KAnd \<Rightarrow> list_all pureSpec (elements v)
      | KOr \<Rightarrow> list_all pureSpec (elements v)
      | KNor \<Rightarrow> list_all pureSpec (elements v)
      | KNot \<Rightarrow> pureSpec v
      | KScope \<Rightarrow> pureSpec v
      | KOther \<Rightarrow> False)"
  by pat_completeness auto
termination
  by (relation "measure (\<lambda>x. case x of Inl spec \<Rightarrow> 2 * size spec | Inr (k, v) \<Rightarrow> 2 * size v + 1)")
    (auto dest: size_entry size_element)

text \<open>
  Direct evaluation of a spec for one row: a mapping is the conjunction of its
  entries, \<^verbatim>\<open>$and\<close> holds when every element does, \<^verbatim>\<open>$or\<close> when some element does,
  \<^verbatim>\<open>$nor\<close> when none does, \<^verbatim>\<open>$not\<close> when its operand does not; a comparison is asked
  of the field in scope.
\<close>

function evalSpec :: "rowsem \<Rightarrow> jsval \<Rightarrow> string \<Rightarrow> bool" and
  evalEntry :: "rowsem \<Rightarrow> string \<Rightarrow> jsval \<Rightarrow> string \<Rightarrow> bool"
where
  "evalSpec I (JObj es) scope = list_all (\<lambda>e. evalEntry I (fst e) (snd e) scope) es"
| "evalSpec I JUndefined scope = True"
| "evalSpec I JNull scope = True"
| "evalSpec I (JBool b) scope = True"
| "evalSpec I (JNum n) scope = True"
| "evalSpec I (JStr s) scope = True"
| "evalSpec I (JArr xs) scope = True"
| "evalEntry I key v scope =
     (case entryKind key v of
        KIn \<Rightarrow> isin I scope (elements v)
      | KNin \<Rightarrow> \<not> isin I scope (elements v)
      | KCmp op \<Rightarrow> cmp I (JStr scope) op v
      | KAnd \<Rightarrow> list_all (\<lambda>x. evalSpec I x scope) (elements v)
      | KOr \<Rightarrow> list_ex (\<lambda>x. evalSpec I x scope) (elements v)
      | KNor \<Rightarrow> \<not> list_ex (\<lambda>x. evalSpec I x scope) (elements v)
      | KNot \<Rightarrow> \<not> evalSpec I v scope
      | KScope \<Rightarrow> evalSpec I v key
      | KOther \<Rightarrow> True)"
  by pat_completeness auto
termination
  by (relation "measure (\<lambda>x. case x of Inl (I, spec, scope) \<Rightarrow> 2 * size spec
                              | Inr (I, k, v, scope) \<Rightarrow> 2 * size v + 1)")
    (auto dest: size_entry size_element)

text \<open>
  \<open>emits spec\<close>: compiling the spec leaves at least one condition in the clause.
  \<open>definite spec\<close>: no \<^verbatim>\<open>$or\<close> sequence is empty, and every element of an \<^verbatim>\<open>$or\<close> or
  \<^verbatim>\<open>$nor\<close> sequence and every operand of \<^verbatim>\<open>$not\<close> emits a condition.
\<close>

function emits :: "jsval \<Rightarrow> bool" and emitsEntry :: "string \<Rightarrow> jsval \<Rightarrow> bool" where
  "emits (JObj es) = list_ex (\<lambda>e. emitsEntry (fst e) (snd e)) es"
| "emits JUndefined = False"
| "emits JNull = False"
| "emits (JBool b) = False"
| "emits (JNum n) = False"
| "emits (JStr s) = False"
| "emits (JArr xs) = False"
| "emitsEntry key v =
     (case entryKind key v of
        KIn \<Rightarrow> True | KNin \<Rightarrow> True | KCmp op \<Rightarrow> True
      | KAnd \<Rightarrow> list_ex emits (elements v)
      | KOr \<Rightarrow> list_ex emits (elements v)
      | KNor \<Rightarrow> list_ex emits (elements v)
      | KNot \<Rightarrow> emits v
      | KScope \<Rightarrow> emits v
      | KOther \<Rightarrow> False)"
  by pat_completeness auto
termination
  by (relation "measure (\<lambda>x. case x of Inl spec \<Rightarrow> 2 * size spec | Inr (k, v) \<Rightarrow> 2 * size v + 1)")
    (auto dest: size_entry size_element)

function definite :: "jsval \<Rightarrow> bool" and definiteEntry :: "string \<Rightarrow> jsval \<Rightarrow> bool" where
  "definite (JObj es) = list_all (\<lambda>e. definiteEntry (fst e) (snd e)) es"
| "definite JUndefined = True"
| "definite JNull = True"
| "definite (JBool b) = True"
| "definite (JNum n) = True"
| "definite (JStr s) = True"
| "definite (JArr xs) = True"
| "definiteEntry key v =
     (case entryKind key v of
        KIn \<Rightarrow> True | KNin \<Rightarrow> True | KCmp op \<Rightarrow> True
      | KAnd \<Rightarrow> list_all definite (elements v)
      | KOr \<Rightarrow> elements v \<noteq> [] \<and> list_all (\<lambda>x. definite x \<and> emits x) (elements v)
      | KNor \<Rightarrow> list_all (\<lambda>x. definite x \<and> emits x) (elements v)
      | KNot \<Rightarrow> definite v \<and> emits v
      | KScope \<Rightarrow> definite v
      | KOther \<Rightarrow> True)"
  by pat_completeness auto
termination
  by (relation "measure (\<lambda>x. case x of Inl spec \<Rightarrow> 2 * size spec | Inr (k, v) \<Rightarrow> 2 * size v + 1)")
    (auto dest: size_entry size_element)

text \<open>
  A row for the examples: \<^verbatim>\<open>{age: 40, status: "active"}\<close>, integers compared by
  their order and strings by equality.
\<close>

definition exampleRow :: rowsem where
  "exampleRow =
     \<lparr> cmp = (\<lambda>col op v.
          if col = JStr ''age'' then
            (case v of
               JNum n \<Rightarrow>
                 (if op = ''>'' then 40 > n else if op = ''>='' then 40 \<ge> n
                  else if op = ''<'' then 40 < n else if op = ''<='' then 40 \<le> n
                  else if op = ''='' then 40 = n else if op = ''!='' then 40 \<noteq> n
                  else False)
             | _ \<Rightarrow> False)
          else if col = JStr ''status'' then
            (if op = ''='' then v = JStr ''active''
             else if op = ''!='' then v \<noteq> JStr ''active''
             else False)
          else False),
       isin = (\<lambda>f vs.
          if f = ''age'' then JNum 40 \<in> set vs
          else if f = ''status'' then JStr ''active'' \<in> set vs
          else False),
       isnull = (\<lambda>f. f \<noteq> ''age'' \<and> f \<noteq> ''status''),
       rawcond = (\<lambda>c b. False) \<rparr>"

text \<open>
  A spec that uses every construct of the fragment:
  \<^verbatim>\<open>{age: {$gt: 30, $lt: 50},
    $or: [{status: {$eq: "pending"}}, {status: {$in: ["active"]}}],
    $nor: [{age: {$gte: 41}}, {age: {$ne: 40}}],
    $not: {status: {$nin: ["active"]}},
    $and: [{}, {age: {$lte: 40}}]}\<close>
\<close>

definition exampleSpec :: jsval where
  "exampleSpec = JObj
     [(''age'', JObj [(''$gt'', JNum 30), (''$lt'', JNum 50)]),
      (''$or'', JArr [JObj [(''status'', JObj [(''$eq'', JStr ''pending'')])],
                     JObj [(''status'', JObj [(''$in'', JArr [JStr ''active''])])]]),
      (''$nor'', JArr [JObj [(''age'', JObj [(''$gte'', JNum 41)])],
                      JObj [(''age'', JObj [(''$ne'', JNum 40)])]]),
      (''$not'', JObj [(''status'', JObj [(''$nin'', JArr [JStr ''active''])])]),
      (''$and'', JArr [JObj [], JObj [(''age'', JObj [(''$lte'', JNum 40)])]])]"

section \<open>The adapter and createQuery\<close>

text \<open>
  The adapter's own configuration: \<^verbatim>\<open>opts.tableName\<close>, \<^verbatim>\<open>opts.schema\<close>,
  \<^verbatim>\<open>opts.knex.client\<close> and \<^verbatim>\<open>idFieldName\<close>, and what it reads of the host service: the
  field definitions (\<^verbatim>\<open>service.$fields\<close>), the primary field and the index definitions
  (\<^verbatim>\<open>service.settings.indexes\<close>).
\<close>

record fieldDef =
  columnName :: string
  columnType :: string
  primaryKey :: bool
  generated :: "string option"
  columnLength :: jsval
  fieldMax :: jsval
  fieldLength :: jsval
  virtual :: bool

record indexDef =
  indexFields :: jsval
  indexName :: jsval
  indexType :: jsval
  indexUnique :: bool

record adapter =
  tableName :: string
  schema :: "string option"
  client :: string
  idFieldName :: string
  primaryField :: "fieldDef option"
  serviceFields :: "fieldDef list"
  serviceIndexes :: "indexDef list option"

text \<open>
  \<^verbatim>\<open>init\<close> (line 60): the identity field is the primary field's column when the
  service declares one; the constructor's default is \<^verbatim>\<open>"id"\<close>.
\<close>

definition init :: "adapter \<Rightarrow> adapter" where
  "init a = (case primaryField a of
               None \<Rightarrow> a
             | Some pf \<Rightarrow> a\<lparr>idFieldName := columnName pf\<rparr>)"

text \<open>The value a row or entity holds in a column; \<^verbatim>\<open>undefined\<close> when it has none.\<close>

fun field :: "jsval \<Rightarrow> string \<Rightarrow> jsval" where
  "field (JObj es) name = lookup es name"
| "field v name = JUndefined"

text \<open>The decimal name of an array index, for \<^verbatim>\<open>Object.assign({}, array)\<close>.\<close>

fun decString :: "nat \<Rightarrow> string" where
  "decString n =
     (if n < 10 then [char_of (48 + n)]
      else decString (n div 10) @ [char_of (48 + n mod 10)])"

declare decString.simps [simp del]

text \<open>
  \<^verbatim>\<open>Object.assign({}, v)\<close> for a truthy \<open>v\<close>: a copy of an object's entries; the
  indexed elements of an array or characters of a string; nothing of a number or
  boolean.
\<close>

fun objectAssign :: "jsval \<Rightarrow> jsval" where
  "objectAssign (JObj es) = JObj es"
| "objectAssign (JArr xs) = JObj (zip (map decString [0..<length xs]) xs)"
| "objectAssign (JStr s) = JObj (zip (map decString [0..<length s]) (map (\<lambda>c. JStr [c]) s))"
| "objectAssign v = JObj []"

text \<open>
  The text search loop (lines 370-373); \<open>i\<close> is the index. \<^verbatim>\<open>searchFields\<close> must have
  a \<^verbatim>\<open>forEach\<close>, that is, be an array.
\<close>

fun searchEach :: "builder \<Rightarrow> jsval list \<Rightarrow> nat \<Rightarrow> string \<Rightarrow> builder" where
  "searchEach q [] i search = q"
| "searchEach q (fld # rest) i search =
     searchEach
       (q @ [if i = 0 then Where3 fld ''like'' (JStr (''%'' @ search @ ''%''))
             else OrWhere3 fld ''like'' (JStr (''%'' @ search @ ''%''))])
       rest (Suc i) search"

text \<open>
  The sort loop (lines 380-384): every token must be a string (\<^verbatim>\<open>field.startsWith\<close>).
\<close>

fun sortEach :: "builder \<Rightarrow> jsval list \<Rightarrow> error + builder" where
  "sortEach q [] = Inr q"
| "sortEach q (JStr s # rest) =
     (if s \<noteq> [] \<and> hd s = CHR ''&'' then sortEach (q @ [OrderByRaw (tl s)]) rest
      else if s \<noteq> [] \<and> hd s = CHR ''-'' then sortEach (q @ [OrderBy (tl s) ''desc'']) rest
      else sortEach (q @ [OrderBy s ''asc'']) rest)"
| "sortEach q (v # rest) = Inl TypeError"

definition isNumber :: "jsval \<Rightarrow> bool" where
  "isNumber v \<longleftrightarrow> typeof v = ''number''"

fun numberGt0 :: "jsval \<Rightarrow> bool" where
  "numberGt0 (JNum n) = (n > 0)"
| "numberGt0 v = False"

text \<open>
  \<^verbatim>\<open>createQuery(params, opts = {})\<close> (lines 360-404); \<open>counting\<close> is
  \<^verbatim>\<open>opts.counting\<close>. \<open>params\<close> is a plain object, given by its entries, or missing
  (\<open>None\<close>). \<^verbatim>\<open>getTable()\<close> is the fresh builder \<open>[]\<close>.
\<close>

definition createQuery ::
  "adapter \<Rightarrow> (string \<times> jsval) list option \<Rightarrow> bool \<Rightarrow> error + builder" where
  "createQuery a params counting =
     (let q0 = (if counting then [Count] else []) in
      case params of
        None \<Rightarrow> Inr q0
      | Some ps \<Rightarrow>
        let query = (if truthy (lookup ps ''query'')
                     then objectAssign (lookup ps ''query'') else JObj [])
        in case computeQuery q0 query '''' of
             Inl err \<Rightarrow> Inl err
           | Inr q1 \<Rightarrow>
               (case (if typeof (lookup ps ''search'') = ''string''
                          \<and> lookup ps ''search'' \<noteq> JStr ''''
                          \<and> truthy (lookup ps ''searchFields'')
                      then (if isArray (lookup ps ''searchFields'')
                            then Inr (searchEach q1 (elements (lookup ps ''searchFields'')) 0
                                        (case lookup ps ''search'' of JStr s \<Rightarrow> s | _ \<Rightarrow> ''''))
                            else Inl TypeError)
                      else Inr q1) of
                  Inl err \<Rightarrow> Inl err
                | Inr q2 \<Rightarrow>
                    (case (if \<not> counting \<and> truthy (lookup ps ''sort'')
                           then (let pSort = (if typeof (lookup ps ''sort'') = ''string''
                                              then JArr [lookup ps ''sort'']
                                              else lookup ps ''sort'')
                                 in if isArray pSort then sortEach q2 (elements pSort)
                                    else Inl TypeError)
                           else Inr q2) of
                       Inl err \<Rightarrow> Inl err
                     | Inr q3 \<Rightarrow>
                         (let q4 = (if \<not> counting \<and> isNumber (lookup ps ''limit'')
                                        \<and> numberGt0 (lookup ps ''limit'')
                                    then q3 @ [Limit (lookup ps ''limit'')] else q3)
                          in if \<not> counting \<and> isNumber (lookup ps ''offset'')
                                  \<and> numberGt0 (lookup ps ''offset'')
                             then Inr ((if \<not> truthy (lookup ps ''sort'') \<and> client a = ''mssql''
                                        then q4 @ [OrderBy (idFieldName a) ''asc''] else q4)
                                       @ [Offset (lookup ps ''offset'')])
                             else Inr q4))))"

text \<open>Ordering, limit and offset statements, at any depth of a builder.\<close>

fun paging :: "stmt \<Rightarrow> bool" where
  "paging (OrderByRaw s) = True"
| "paging (OrderBy f d) = True"
| "paging (Limit n) = True"
| "paging (Offset n) = True"
| "paging (WhereFn g) = list_ex paging g"
| "paging (OrWhereFn g) = list_ex paging g"
| "paging (WhereNotFn g) = list_ex paging g"
| "paging s = False"

section \<open>The store and the CRUD operations\<close>

text \<open>
  The store is reached through knex; what it does is a parameter of the model:
  \<open>verdict\<close>, how it decides the atomic predicates of a where clause for a row;
  \<open>insertRow\<close>, what \<^verbatim>\<open>INSERT ... RETURNING id\<close> of one entity does to the rows of the
  table, and the array the driver resolves with, or the error it rejects with;
  \<open>vocabulary\<close>, the property names of the schema builder's table object.
\<close>

record backend =
  verdict :: "jsval \<Rightarrow> rowsem"
  insertRow :: "jsval list \<Rightarrow> jsval \<Rightarrow> error + (jsval list \<times> jsval list)"
  vocabulary :: "string list"

text \<open>
  The rows of the adapter's table: the committed rows, and the working copy of the
  transaction that is open, if any. A statement issued on the client is committed at
  once; a statement issued on a transaction handle works on the copy.
\<close>

record db =
  committed :: "jsval list"
  pending :: "jsval list option"

datatype handle = Client | Trx

text \<open>\<^verbatim>\<open>getTable(trx)\<close> (lines 99-106): \<^verbatim>\<open>trx || this.client\<close>.\<close>

fun getTable :: "handle option \<Rightarrow> handle" where
  "getTable None = Client"
| "getTable (Some t) = t"

text \<open>\<^verbatim>\<open>table.insert(entity, [idFieldName])\<close> on a handle.\<close>

fun tableInsert :: "backend \<Rightarrow> handle \<Rightarrow> db \<Rightarrow> jsval \<Rightarrow> (error + jsval list) \<times> db" where
  "tableInsert B Client d entity =
     (case insertRow B (committed d) entity of
        Inl err \<Rightarrow> (Inl err, d)
      | Inr (rows, res) \<Rightarrow> (Inr res, d\<lparr>committed := rows\<rparr>))"
| "tableInsert B Trx d entity =
     (case pending d of
        None \<Rightarrow> (Inl (StoreError ''no open transaction''), d)
      | Some work \<Rightarrow>
          (case insertRow B work entity of
             Inl err \<Rightarrow> (Inl err, d)
           | Inr (rows, res) \<Rightarrow> (Inr res, d\<lparr>pending := Some rows\<rparr>)))"

text \<open>
  \<^verbatim>\<open>client.transaction(handler)\<close>, as the knex library and the store provide it: the
  handler runs on a working copy of the committed rows; when its promise resolves the
  copy is committed, when it rejects the copy is discarded and the rejection is passed
  on.
\<close>

definition transaction :: "db \<Rightarrow> (db \<Rightarrow> (error + 'a) \<times> db) \<Rightarrow> (error + 'a) \<times> db" where
  "transaction d handler =
     (case handler (d\<lparr>pending := Some (committed d)\<rparr>) of
        (Inl err, d1) \<Rightarrow> (Inl err, d1\<lparr>pending := None\<rparr>)
      | (Inr x, d1) \<Rightarrow>
          (Inr x, d1\<lparr>committed := (case pending d1 of None \<Rightarrow> committed d1 | Some work \<Rightarrow> work),
                     pending := None\<rparr>))"

text \<open>
  \<^verbatim>\<open>Promise.all(entities.map(entity => table.insert(...)))\<close> (lines 217-219). The inserts
  are issued in input order on one handle, which runs them one after the other; the
  results are collected by position; the first rejection rejects the whole.
\<close>

fun insertAll :: "backend \<Rightarrow> handle \<Rightarrow> db \<Rightarrow> jsval list \<Rightarrow> (error + jsval list list) \<times> db" where
  "insertAll B h d [] = (Inr [], d)"
| "insertAll B h d (entity # rest) =
     (case tableInsert B h d entity of
        (Inl err, d1) \<Rightarrow> (Inl err, d1)
      | (Inr res, d1) \<Rightarrow>
          (case insertAll B h d1 rest of
             (Inl err, d2) \<Rightarrow> (Inl err, d2)
           | (Inr results, d2) \<Rightarrow> (Inr (res # results), d2)))"

text \<open>
  \<^verbatim>\<open>r => (typeof r == "object" ? r[this.idFieldName] : r)\<close> (line 222, and lines
  198-200 of \<^verbatim>\<open>insert\<close>).
\<close>

definition unwrapId :: "adapter \<Rightarrow> jsval \<Rightarrow> error + jsval" where
  "unwrapId a r = (if typeof r = ''object'' then getProp r (idFieldName a) else Inr r)"

fun mapUnwrap :: "adapter \<Rightarrow> jsval list \<Rightarrow> error + jsval list" where
  "mapUnwrap a [] = Inr []"
| "mapUnwrap a (r # rs) =
     (case unwrapId a r of
        Inl err \<Rightarrow> Inl err
      | Inr x \<Rightarrow> (case mapUnwrap a rs of Inl err \<Rightarrow> Inl err | Inr xs \<Rightarrow> Inr (x # xs)))"

text \<open>The rows a where clause selects, in the store's order.\<close>

definition selectRows :: "backend \<Rightarrow> db \<Rightarrow> builder \<Rightarrow> jsval list" where
  "selectRows B d q = filter (\<lambda>r. selects (verdict B r) q) (committed d)"

text \<open>\<^verbatim>\<open>findByIds(idList)\<close> (lines 157-159).\<close>

definition findByIds :: "backend \<Rightarrow> adapter \<Rightarrow> db \<Rightarrow> jsval list \<Rightarrow> jsval list" where
  "findByIds B a d idList = selectRows B d [WhereIn (idFieldName a) idList]"

text \<open>
  \<^verbatim>\<open>findOne(params)\<close> (lines 135-137) and \<^verbatim>\<open>findById(id)\<close> (lines 146-148):
  \<^verbatim>\<open>.first()\<close> is the first selected row, or \<^verbatim>\<open>undefined\<close>. The model reads the where
  clause only; the query of \<open>findById\<close> has no other statement.
\<close>

definition findOne ::
  "backend \<Rightarrow> adapter \<Rightarrow> db \<Rightarrow> (string \<times> jsval) list option \<Rightarrow> error + jsval" where
  "findOne B a d params =
     (case createQuery a params False of
        Inl err \<Rightarrow> Inl err
      | Inr q \<Rightarrow> Inr (case selectRows B d q of [] \<Rightarrow> JUndefined | r # rest \<Rightarrow> r))"

definition findById :: "backend \<Rightarrow> adapter \<Rightarrow> db \<Rightarrow> jsval \<Rightarrow> error + jsval" where
  "findById B a d ident = findOne B a d (Some [(''query'', JObj [(idFieldName a, ident)])])"

text \<open>
  The identity \<^verbatim>\<open>insert\<close> re-reads by (lines 197-200):
  \<^verbatim>\<open>let id = entity[this.idFieldName] || res[0]; if (typeof id == "object") id = id[this.idFieldName]\<close>.
\<close>

definition resolveIdentity :: "adapter \<Rightarrow> jsval \<Rightarrow> jsval \<Rightarrow> error + jsval" where
  "resolveIdentity a entity res0 =
     (case getProp entity (idFieldName a) of
        Inl err \<Rightarrow> Inl err
      | Inr supplied \<Rightarrow> unwrapId a (if truthy supplied then supplied else res0))"

text \<open>
  \<^verbatim>\<open>insert(entity)\<close> (lines 191-204); the store resolves an insert with an array.
\<close>

definition insert_entity :: "backend \<Rightarrow> adapter \<Rightarrow> db \<Rightarrow> jsval \<Rightarrow> (error + jsval) \<times> db" where
  "insert_entity B a d entity =
     (case tableInsert B (getTable None) d entity of
        (Inl err, d1) \<Rightarrow> (Inl err, d1)
      | (Inr res, d1) \<Rightarrow>
          (case res of
             [] \<Rightarrow> (Inr (JArr res), d1)
           | res0 # rest \<Rightarrow>
               (case resolveIdentity a entity res0 of
                  Inl err \<Rightarrow> (Inl err, d1)
                | Inr ident \<Rightarrow> (findById B a d1 ident, d1))))"

text \<open>\<^verbatim>\<open>insertMany(entities, opts = {})\<close> (lines 215-229).\<close>

definition insertMany :: "backend \<Rightarrow> adapter \<Rightarrow> db \<Rightarrow> jsval list \<Rightarrow> bool \<Rightarrow> (error + jsval list) \<times> db" where
  "insertMany B a d entities returnEntities =
     (case transaction d (\<lambda>d0. insertAll B (getTable (Some Trx)) d0 entities) of
        (Inl err, d1) \<Rightarrow> (Inl err, d1)
      | (Inr results, d1) \<Rightarrow>
          (case mapUnwrap a (concat results) of
             Inl err \<Rightarrow> (Inl err, d1)
           | Inr ids \<Rightarrow>
               if returnEntities then (Inr (findByIds B a d1 ids), d1) else (Inr ids, d1)))"

text \<open>
  \<^verbatim>\<open>removeById(id)\<close> (lines 304-307): \<^verbatim>\<open>table.where(idFieldName, id).del()\<close> deletes the
  rows the clause selects; the id is returned.
\<close>

definition removeById :: "backend \<Rightarrow> adapter \<Rightarrow> db \<Rightarrow> jsval \<Rightarrow> (error + jsval) \<times> db" where
  "removeById B a d ident =
     (Inr ident,
      d\<lparr>committed :=
          filter (\<lambda>r. \<not> selects (verdict B r) [Where2 (idFieldName a) ident]) (committed d)\<rparr>)"

text \<open>
  The inserts of a batch as the store alone would run them: one after the other on
  the rows \<open>rows\<close>, stopping at the first that fails.
\<close>

fun runInserts :: "backend \<Rightarrow> jsval list \<Rightarrow> jsval list \<Rightarrow> error + (jsval list \<times> jsval list list)" where
  "runInserts B rows [] = Inr (rows, [])"
| "runInserts B rows (entity # rest) =
     (case insertRow B rows entity of
        Inl err \<Rightarrow> Inl err
      | Inr (rows1, res) \<Rightarrow>
          (case runInserts B rows1 rest of
             Inl err \<Rightarrow> Inl err
           | Inr (rows2, results) \<Rightarrow> Inr (rows2, res # results)))"

text \<open>
  The identity as the specification words it for \<^verbatim>\<open>insert\<close> (section 4.3): the
  caller's id when it is present and the primary field has \<^verbatim>\<open>generated = "user"\<close>,
  otherwise the backend's value, unwrapped.
\<close>

definition claimedIdentity :: "adapter \<Rightarrow> jsval \<Rightarrow> jsval \<Rightarrow> error + jsval" where
  "claimedIdentity a entity res0 =
     (if field entity (idFieldName a) \<noteq> JUndefined
         \<and> (case primaryField a of None \<Rightarrow> False | Some pf \<Rightarrow> generated pf = Some ''user'')
      then Inr (field entity (idFieldName a))
      else unwrapId a res0)"

text \<open>
  A store for the examples: a row matches \<^verbatim>\<open>column = value\<close> when it holds that value
  in that column; an insert gives an entity without \<^verbatim>\<open>id\<close> the next number, fails
  when a row with the same \<^verbatim>\<open>id\<close> exists, and resolves with the id wrapped in an
  object, as Postgres does. \<open>rowidBackend\<close> resolves with the number of the new row
  instead, whatever the entity's \<^verbatim>\<open>id\<close>.
\<close>

definition exampleBackend :: backend where
  "exampleBackend =
     \<lparr> verdict = (\<lambda>r.
          \<lparr> cmp = (\<lambda>col op v. op = ''='' \<and> (case col of JStr f \<Rightarrow> field r f = v | _ \<Rightarrow> False)),
            isin = (\<lambda>f vs. field r f \<in> set vs),
            isnull = (\<lambda>f. field r f = JNull \<or> field r f = JUndefined),
            rawcond = (\<lambda>c b. False) \<rparr>),
       insertRow = (\<lambda>rows e.
          let ident = (if field e ''id'' = JUndefined then JNum (int (length rows) + 1)
                       else field e ''id'');
              row = (if field e ''id'' = JUndefined then JObj ((''id'', ident) # entries e)
                     else e)
          in if list_ex (\<lambda>r. field r ''id'' = ident) rows
             then Inl (StoreError ''unique constraint'')
             else Inr (rows @ [row], [JObj [(''id'', ident)]])),
       vocabulary = [''increments'', ''integer'', ''string'', ''text'', ''boolean'', ''index'',
                     ''unique''] \<rparr>"

definition rowidBackend :: backend where
  "rowidBackend =
     exampleBackend\<lparr> insertRow := (\<lambda>rows e. Inr (rows @ [e], [JNum (int (length rows) + 1)])) \<rparr>"

section \<open>The schema operations\<close>

text \<open>
  The calls made on the schema builder's table object inside the \<^verbatim>\<open>createTable\<close>
  callback, in call order; \<open>PrimaryCall\<close> is \<^verbatim>\<open>.primary()\<close> chained to the column
  before it.
\<close>

datatype tableCall =
    ColumnCall string string
  | StringCall string jsval
  | IncrementsCall string
  | PrimaryCall
  | UniqueCall jsval jsval
  | IndexCall jsval jsval jsval

text \<open>
  The statements issued to the store, and the schema it holds: the tables by schema
  qualifier and name, each with the calls that defined it.
\<close>

datatype ddl =
    DropTable "string option" string
  | CreateTable "string option" string "tableCall list"

record schemaState =
  tables :: "(string option \<times> string) \<Rightarrow> tableCall list option"
  issued :: "ddl list"

record tableOpts =
  dropTableIfExists :: jsval
  createIndexes :: jsval

text \<open>\<^verbatim>\<open>a || b\<close>.\<close>

definition jsOr :: "jsval \<Rightarrow> jsval \<Rightarrow> jsval" where
  "jsOr x y = (if truthy x then x else y)"

text \<open>The error thrown for a column type the table object does not have (lines 503-505).\<close>

definition invalidType :: "fieldDef \<Rightarrow> error" where
  "invalidType fd =
     ConfigError (''Field '' @ [CHR 0x27] @ columnName fd @ [CHR 0x27]
       @ '' columnType '' @ [CHR 0x27] @ columnType fd @ [CHR 0x27]
       @ '' is not a valid type.'')"

text \<open>
  The \<^verbatim>\<open>for (const field of fields)\<close> loop of the callback (lines 498-522); \<open>tbl\<close>
  holds the calls made so far and \<open>V\<close> the property names of the table object
  (\<^verbatim>\<open>field.columnType in table\<close>).
\<close>

fun buildColumns :: "string list \<Rightarrow> tableCall list \<Rightarrow> fieldDef list \<Rightarrow> error + tableCall list" where
  "buildColumns V tbl [] = Inr tbl"
| "buildColumns V tbl (fd # rest) =
     (if virtual fd then buildColumns V tbl rest
      else if columnType fd \<notin> set V then Inl (invalidType fd)
      else if primaryKey fd then
        (if generated fd = Some ''user''
         then buildColumns V (tbl @ [ColumnCall (columnType fd) (columnName fd), PrimaryCall]) rest
         else buildColumns V (tbl @ [IncrementsCall (columnName fd), PrimaryCall]) rest)
      else if columnType fd = ''string'' then
        buildColumns V
          (tbl @ [StringCall (columnName fd)
                    (jsOr (jsOr (columnLength fd) (fieldMax fd)) (fieldLength fd))]) rest
      else buildColumns V (tbl @ [ColumnCall (columnType fd) (columnName fd)]) rest)"

text \<open>
  \<^verbatim>\<open>createTableIndex(table, def)\<close> (lines 567-575): a plain object of fields is
  replaced by its keys.
\<close>

definition createTableIndex :: "tableCall list \<Rightarrow> indexDef \<Rightarrow> tableCall list" where
  "createTableIndex tbl def =
     (let flds = (if isMapping (indexFields def)
                  then JArr (map (\<lambda>e. JStr (fst e)) (entries (indexFields def)))
                  else indexFields def)
      in if indexUnique def then tbl @ [UniqueCall flds (indexName def)]
         else tbl @ [IndexCall flds (indexName def) (indexType def)])"

text \<open>The whole callback handed to \<^verbatim>\<open>c.createTable\<close> (lines 497-532).\<close>

definition tableCallback ::
  "backend \<Rightarrow> adapter \<Rightarrow> fieldDef list \<Rightarrow> tableOpts option \<Rightarrow> error + tableCall list" where
  "tableCallback B a fieldList opts =
     (case buildColumns (vocabulary B) [] fieldList of
        Inl err \<Rightarrow> Inl err
      | Inr tbl \<Rightarrow>
          (case opts of
             None \<Rightarrow> Inr tbl
           | Some os \<Rightarrow>
               (if truthy (createIndexes os) then
                  (case serviceIndexes a of
                     None \<Rightarrow> Inr tbl
                   | Some defs \<Rightarrow> Inr (foldl createTableIndex tbl defs))
                else Inr tbl)))"

definition hasTable :: "schemaState \<Rightarrow> string option \<Rightarrow> string \<Rightarrow> bool" where
  "hasTable st sch name \<longleftrightarrow> tables st (sch, name) \<noteq> None"

text \<open>\<^verbatim>\<open>dropTable(tableName)\<close> (lines 540-543): the statement is issued in any case.\<close>

definition dropTable :: "adapter \<Rightarrow> string \<Rightarrow> schemaState \<Rightarrow> (error + unit) \<times> schemaState" where
  "dropTable a name st =
     (if hasTable st (schema a) name
      then (Inr (), st\<lparr>tables := (tables st)((schema a, name) := None),
                       issued := issued st @ [DropTable (schema a) name]\<rparr>)
      else (Inl (StoreError ''no such table''),
            st\<lparr>issued := issued st @ [DropTable (schema a) name]\<rparr>))"

text \<open>
  \<^verbatim>\<open>c.createTable(name, callback)\<close>: the builder runs the callback to build the
  statement; an exception thrown in it rejects before anything is sent. The statement
  fails when the table exists.
\<close>

definition schemaCreateTable ::
  "adapter \<Rightarrow> error + tableCall list \<Rightarrow> schemaState \<Rightarrow> (error + unit) \<times> schemaState" where
  "schemaCreateTable a built st =
     (case built of
        Inl err \<Rightarrow> (Inl err, st)
      | Inr tbl \<Rightarrow>
          (if hasTable st (schema a) (tableName a)
           then (Inl (StoreError ''table exists''),
                 st\<lparr>issued := issued st @ [CreateTable (schema a) (tableName a) tbl]\<rparr>)
           else (Inr (),
                 st\<lparr>tables := (tables st)((schema a, tableName a) \<mapsto> tbl),
                    issued := issued st @ [CreateTable (schema a) (tableName a) tbl]\<rparr>)))"

text \<open>
  \<^verbatim>\<open>createTable(fields, opts = {})\<close> (lines 484-534). \<open>fields = None\<close> is a missing
  argument, replaced by the service's fields; \<open>opts = None\<close> is \<^verbatim>\<open>null\<close>.
\<close>

definition createTable ::
  "backend \<Rightarrow> adapter \<Rightarrow> fieldDef list option \<Rightarrow> tableOpts option \<Rightarrow> schemaState
   \<Rightarrow> (error + unit) \<times> schemaState" where
  "createTable B a fieldsArg opts st =
     (let fieldList = (case fieldsArg of None \<Rightarrow> serviceFields a | Some fs \<Rightarrow> fs);
          dropped =
            (if (case opts of None \<Rightarrow> False | Some os \<Rightarrow> dropTableIfExists os \<noteq> JBool False)
             then (if hasTable st (schema a) (tableName a)
                   then dropTable a (tableName a) st
                   else (Inr (), st))
             else (Inr (), st))
      in case dropped of
           (Inl err, st1) \<Rightarrow> (Inl err, st1)
         | (Inr u, st1) \<Rightarrow> schemaCreateTable a (tableCallback B a fieldList opts) st1)"

text \<open>The default \<^verbatim>\<open>opts = {}\<close>, and a field definition for the examples.\<close>

definition defaultOpts :: tableOpts where
  "defaultOpts = \<lparr> dropTableIfExists = JUndefined, createIndexes = JUndefined \<rparr>"

definition exampleSchema :: schemaState where
  "exampleSchema =
     \<lparr> tables = (\<lambda>k. None)((None, ''users'') \<mapsto> [IncrementsCall ''id'', PrimaryCall]),
       issued = [] \<rparr>"

definition plainField :: "string \<Rightarrow> string \<Rightarrow> fieldDef" where
  "plainField name ty =
     \<lparr> columnName = name, columnType = ty, primaryKey = False, generated = None,
       columnLength = JUndefined, fieldMax = JUndefined, fieldLength = JUndefined,
       virtual = False \<rparr>"

text \<open>An adapter and query parameters for the examples.\<close>

definition exampleAdapter :: adapter where
  "exampleAdapter =
     \<lparr> tableName = ''users'', schema = None, client = ''pg'', idFieldName = ''id'',
       primaryField = None, serviceFields = [], serviceIndexes = None \<rparr>"

definition keyField :: "string option \<Rightarrow> fieldDef" where
  "keyField gen =
     \<lparr> columnName = ''id'', columnType = ''string'', primaryKey = True, generated = gen,
       columnLength = JUndefined, fieldMax = JUndefined, fieldLength = JUndefined,
       virtual = False \<rparr>"

definition autoKeyAdapter :: adapter where
  "autoKeyAdapter = init (exampleAdapter\<lparr>primaryField := Some (keyField (Some ''auto''))\<rparr>)"

definition exampleParams :: "(string \<times> jsval) list" where
  "exampleParams =
     [(''query'', JObj [(''age'', JObj [(''$gt'', JNum 30)])]),
      (''search'', JStr ''an''),
      (''searchFields'', JArr [JStr ''name'', JStr ''email'']),
      (''sort'', JArr [JStr ''-createdAt'', JStr ''name'']),
      (''limit'', JNum 10),
      (''offset'', JNum 5)]"

definition exampleDb :: db where
  "exampleDb = \<lparr> committed = [JObj [(''id'', JNum 1), (''name'', JStr ''a'')]], pending = None \<rparr>"

section \<open>Notions used in the proofs\<close>

text \<open>The builder a sub-spec compiles to, and the method \<open>assignQueryArrayElements\<close>
  picks at index \<open>i\<close>.\<close>

definition compiled :: "jsval \<Rightarrow> string \<Rightarrow> builder" where
  "compiled x f = (case computeQuery [] x f of Inl e \<Rightarrow> [] | Inr c \<Rightarrow> c)"

definition fnAt :: "groupfn \<Rightarrow> groupfn option \<Rightarrow> nat \<Rightarrow> groupfn" where
  "fnAt first other i =
     (if i = 0 then first else (case other of None \<Rightarrow> first | Some m \<Rightarrow> m))"

text \<open>The truth value a statement contributes, and clauses joined by AND only.\<close>

fun condVal :: "(conn \<times> bool) option \<Rightarrow> bool" where
  "condVal None = True"
| "condVal (Some (c, v)) = v"

definition andOnly :: "rowsem \<Rightarrow> stmt list \<Rightarrow> bool" where
  "andOnly I ss \<longleftrightarrow> (\<forall>s\<in>set ss. \<forall>v. stmtCond I s \<noteq> Some (Or, v))"

text \<open>
  The compiled spec is the direct evaluation: it compiles, its statements join by AND,
  and the clause's condition is the spec's value when the spec emits one.
\<close>

definition sound :: "rowsem \<Rightarrow> jsval \<Rightarrow> string \<Rightarrow> bool" where
  "sound I spec f \<longleftrightarrow>
     (\<exists>c. computeQuery [] spec f = Inr c \<and> andOnly I c \<and>
          whereCond I c = (if emits spec then Some (evalSpec I spec f) else None) \<and>
          (\<not> emits spec \<longrightarrow> evalSpec I spec f))"

definition soundEntry :: "rowsem \<Rightarrow> string \<Rightarrow> jsval \<Rightarrow> string \<Rightarrow> bool" where
  "soundEntry I k v f \<longleftrightarrow>
     (\<exists>s. (\<forall>q. whereEntry q k v f = Inr (q @ [s])) \<and>
          stmtCond I s = (if emitsEntry k v then Some (And, evalEntry I k v f) else None) \<and>
          (\<not> emitsEntry k v \<longrightarrow> evalEntry I k v f))"

declare pureEntry.simps [simp del] evalEntry.simps [simp del] emitsEntry.simps [simp del]
  definiteEntry.simps [simp del]

text \<open>
  What one entry adds to the builder: nothing, one statement that is no ordering, limit
  or offset, or one group built by a recursive call. \<open>extends q q'\<close>: the builder
  \<open>q'\<close> is \<open>q\<close> followed by statements none of which is or holds one of those.
\<close>

definition entryShape :: "builder \<Rightarrow> string \<Rightarrow> jsval \<Rightarrow> string \<Rightarrow> error + builder \<Rightarrow> bool" where
  "entryShape q k v f r \<longleftrightarrow>
     (case r of
        Inl e \<Rightarrow> True
      | Inr q' \<Rightarrow>
          q' = q \<or> (\<exists>s. q' = q @ [s] \<and>
            (\<not> paging s \<or>
             (\<exists>g. (s = WhereFn g \<or> s = WhereNotFn g) \<and>
               ((\<exists>fe eo. assignQueryArrayElements [] (elements v) fe eo 0 f = Inr g) \<or>
                computeQuery [] v f = Inr g \<or> computeQuery [] v k = Inr g)))))"

definition extends :: "builder \<Rightarrow> builder \<Rightarrow> bool" where
  "extends q q' \<longleftrightarrow> (\<exists>w. q' = q @ w \<and> \<not> list_ex paging w)"

section \<open>Properties of computeQuery\<close>

lemma isArray_object: "isArray v \<Longrightarrow> typeof v = ''object''"
  by (cases v) simp_all

text \<open>
  C7. Compiling a spec that is not a mapping (\<^verbatim>\<open>null\<close>, \<^verbatim>\<open>undefined\<close>, a scalar or
  an array) returns the builder unchanged, whatever the builder and the scope field.
\<close>

theorem computeQuery_not_mapping:
  "spec = JNull \<or> typeof spec \<noteq> ''object'' \<or> isArray spec
   \<Longrightarrow> computeQuery q spec fieldName = Inr q"
  by (cases spec) (auto simp: computeQuery.simps)

theorem computeQuery_not_mapping_witness:
  "computeQuery [Where2 ''a'' (JNum 1)] JNull ''age'' = Inr [Where2 ''a'' (JNum 1)] \<and>
   computeQuery [Where2 ''a'' (JNum 1)] (JNum 5) ''age'' = Inr [Where2 ''a'' (JNum 1)] \<and>
   computeQuery [Where2 ''a'' (JNum 1)] (JArr [JObj [(''b'', JNum 2)]]) ''age''
     = Inr [Where2 ''a'' (JNum 1)]"
  using computeQuery_not_mapping [of JNull "[Where2 ''a'' (JNum 1)]" "''age''"]
    computeQuery_not_mapping [of "JNum 5" "[Where2 ''a'' (JNum 1)]" "''age''"]
    computeQuery_not_mapping [of "JArr [JObj [(''b'', JNum 2)]]" "[Where2 ''a'' (JNum 1)]" "''age''"]
  by simp

text \<open>
  C2 (as stated, refuted). \<^verbatim>\<open>null\<close> is a scalar, and \<^verbatim>\<open>{status: null}\<close> has a key that
  matches no operator rule; but \<^verbatim>\<open>typeof null\<close> is \<^verbatim>\<open>"object"\<close>, so the entry is taken
  by the branch for nested mappings before the last one is reached: the call made is a
  group, and the group is empty, not an equality on \<^verbatim>\<open>status\<close>.
\<close>

theorem default_rule_not_reached_by_null:
  "\<not> operatorRule ''status'' JNull \<and>
   whereEntry [] ''status'' JNull ''age'' = Inr [WhereFn []] \<and>
   whereEntry [] ''status'' JNull ''age'' \<noteq> Inr [Where2 ''status'' JNull]"
  by (simp add: whereEntry.simps computeQuery.simps operatorRule_def)

text \<open>
  C2 (amended). An entry whose key matches no operator rule and whose value is a scalar
  other than \<^verbatim>\<open>null\<close> (\<^verbatim>\<open>typeof value\<close> is not \<^verbatim>\<open>"object"\<close>) makes
  \<^verbatim>\<open>q.where(key, value)\<close>: an equality on the column named by the key itself; the
  scope field does not occur in the call. So \<^verbatim>\<open>{age: {foo: "bar"}}\<close> compiles to a
  group holding an equality on column \<^verbatim>\<open>foo\<close>.
\<close>

theorem default_rule_uses_literal_key:
  "(typeof fieldValue \<noteq> ''object'' \<and> \<not> operatorRule key fieldValue
     \<longrightarrow> whereEntry q key fieldValue scopeField = Inr (q @ [Where2 key fieldValue])) \<and>
   computeQuery [] (JObj [(''age'', JObj [(''foo'', JStr ''bar'')])]) ''''
     = Inr [WhereFn [Where2 ''foo'' (JStr ''bar'')]]"
proof
  show "typeof fieldValue \<noteq> ''object'' \<and> \<not> operatorRule key fieldValue
     \<longrightarrow> whereEntry q key fieldValue scopeField = Inr (q @ [Where2 key fieldValue])"
    by (auto simp: whereEntry.simps operatorRule_def dest: isArray_object)
  show "computeQuery [] (JObj [(''age'', JObj [(''foo'', JStr ''bar'')])]) ''''
     = Inr [WhereFn [Where2 ''foo'' (JStr ''bar'')]]"
    by (simp add: computeQuery.simps whereEntry.simps)
qed

theorem default_rule_uses_literal_key_witness:
  "typeof (JStr ''bar'') \<noteq> ''object'' \<and> \<not> operatorRule ''foo'' (JStr ''bar'') \<and>
   whereEntry [] ''foo'' (JStr ''bar'') ''age'' = Inr [Where2 ''foo'' (JStr ''bar'')]"
  using default_rule_uses_literal_key [of "JStr ''bar''" "''foo''" "[]" "''age''"]
  by (simp add: operatorRule_def)

text \<open>
  C10 (as stated, refuted). \<^verbatim>\<open>null\<close> is a scalar that is not a boolean, but
  \<^verbatim>\<open>{$exists: null}\<close> does not reach the last branch: \<^verbatim>\<open>typeof null\<close> is \<^verbatim>\<open>"object"\<close>,
  so the branch for nested mappings takes the entry and the call made is an empty
  group, not an equality on a column named \<^verbatim>\<open>$exists\<close>.
\<close>

theorem exists_null_opens_group:
  "typeof JNull \<noteq> ''boolean'' \<and>
   whereEntry [] ''$exists'' JNull ''age'' = Inr [WhereFn []] \<and>
   whereEntry [] ''$exists'' JNull ''age'' \<noteq> Inr [Where2 ''$exists'' JNull]"
  by (simp add: whereEntry.simps computeQuery.simps)

text \<open>
  C10 (amended). An \<^verbatim>\<open>$exists\<close> entry whose value is a scalar other than \<^verbatim>\<open>true\<close>,
  \<^verbatim>\<open>false\<close> and \<^verbatim>\<open>null\<close> reaches the last branch: the only call made is an equality
  on a column named \<^verbatim>\<open>$exists\<close>, so no null test on the scope field is emitted.
\<close>

theorem exists_non_boolean_falls_through:
  "typeof fieldValue \<noteq> ''object'' \<and> typeof fieldValue \<noteq> ''boolean''
   \<Longrightarrow> whereEntry q ''$exists'' fieldValue scopeField
         = Inr (q @ [Where2 ''$exists'' fieldValue])"
  by (cases fieldValue) (auto simp: whereEntry.simps)

theorem exists_non_boolean_falls_through_witness:
  "whereEntry [] ''$exists'' (JNum 1) ''age'' = Inr [Where2 ''$exists'' (JNum 1)] \<and>
   whereEntry [] ''$exists'' (JNum 0) ''age'' = Inr [Where2 ''$exists'' (JNum 0)] \<and>
   whereEntry [] ''$exists'' (JStr ''true'') ''age'' = Inr [Where2 ''$exists'' (JStr ''true'')]"
  using exists_non_boolean_falls_through [of "JNum 1" "[]" "''age''"]
    exists_non_boolean_falls_through [of "JNum 0" "[]" "''age''"]
    exists_non_boolean_falls_through [of "JStr ''true''" "[]" "''age''"]
  by simp

section \<open>Compiled clauses and direct evaluation\<close>

lemma assign_const:
  "\<forall>x\<in>set xs. \<exists>c. computeQuery [] x f = Inr c \<Longrightarrow> \<forall>j\<ge>i. fnAt first other j = m \<Longrightarrow>
   assignQueryArrayElements b xs first other i f
     = Inr (b @ map (\<lambda>x. call_group m (compiled x f)) xs)"
proof (induction xs arbitrary: b i)
  case Nil
  then show ?case by simp
next
  case (Cons x xs)
  from Cons.prems(1) obtain c where c: "computeQuery [] x f = Inr c" by auto
  have m: "fnAt first other i = m" using Cons.prems(2) by simp
  have "assignQueryArrayElements (b @ [call_group m c]) xs first other (Suc i) f
     = Inr ((b @ [call_group m c]) @ map (\<lambda>x. call_group m (compiled x f)) xs)"
    using Cons.prems by (intro Cons.IH) auto
  then show ?case using c m by (simp add: compiled_def fnAt_def)
qed

lemma assign_or:
  assumes "\<forall>x\<in>set (x0 # xs). \<exists>c. computeQuery [] x f = Inr c"
  shows "assignQueryArrayElements [] (x0 # xs) FnWhere (Some FnOrWhere) 0 f
     = Inr (WhereFn (compiled x0 f) # map (\<lambda>x. OrWhereFn (compiled x f)) xs)"
proof -
  from assms obtain c where c: "computeQuery [] x0 f = Inr c" by auto
  have "assignQueryArrayElements [WhereFn c] xs FnWhere (Some FnOrWhere) (Suc 0) f
     = Inr ([WhereFn c] @ map (\<lambda>x. call_group FnOrWhere (compiled x f)) xs)"
    using assms by (intro assign_const) (auto simp: fnAt_def)
  then show ?thesis using c by (simp add: compiled_def)
qed

lemma whereState_and_Some:
  "andOnly I ss \<Longrightarrow>
   whereState I (Some (d, a)) ss = Some (d, a \<and> (\<forall>s\<in>set ss. condVal (stmtCond I s)))"
proof (induction ss arbitrary: a)
  case Nil
  then show ?case by simp
next
  case (Cons s ss)
  then have ss: "andOnly I ss" by (simp add: andOnly_def)
  show ?case
  proof (cases "stmtCond I s")
    case None
    then show ?thesis using Cons.IH [OF ss] by simp
  next
    case (Some cv)
    then obtain v where "stmtCond I s = Some (And, v)"
      using Cons.prems by (cases cv; cases "fst cv") (auto simp: andOnly_def)
    then show ?thesis using Cons.IH [OF ss] by auto
  qed
qed

lemma whereState_and_None:
  "andOnly I ss \<Longrightarrow>
   whereState I None ss =
     (if \<forall>s\<in>set ss. stmtCond I s = None then None
      else Some (False, \<forall>s\<in>set ss. condVal (stmtCond I s)))"
proof (induction ss)
  case Nil
  then show ?case by simp
next
  case (Cons s ss)
  then have ss: "andOnly I ss" by (simp add: andOnly_def)
  show ?case
  proof (cases "stmtCond I s")
    case None
    then show ?thesis using Cons.IH [OF ss] by simp
  next
    case (Some cv)
    then obtain v where "stmtCond I s = Some (And, v)"
      using Cons.prems by (cases cv; cases "fst cv") (auto simp: andOnly_def)
    then show ?thesis using whereState_and_Some [OF ss, of False v] by auto
  qed
qed

lemma whereCond_and:
  "andOnly I ss \<Longrightarrow>
   whereCond I ss =
     (if \<forall>s\<in>set ss. stmtCond I s = None then None
      else Some (\<forall>s\<in>set ss. condVal (stmtCond I s)))"
  by (simp add: whereCond_def whereState_and_None)

lemma whereState_or_Some:
  "\<forall>s\<in>set ss. \<exists>v. stmtCond I s = Some (Or, v) \<Longrightarrow>
   closeCond (whereState I (Some (d, a)) ss)
     = Some (d \<or> a \<or> (\<exists>s\<in>set ss. condVal (stmtCond I s)))"
proof (induction ss arbitrary: d a)
  case Nil
  then show ?case by simp
next
  case (Cons s ss)
  then obtain v where v: "stmtCond I s = Some (Or, v)" by auto
  have "closeCond (whereState I (Some (d \<or> a, v)) ss)
     = Some ((d \<or> a) \<or> v \<or> (\<exists>s\<in>set ss. condVal (stmtCond I s)))"
    using Cons.prems by (intro Cons.IH) auto
  then show ?case using v by auto
qed

lemma kind_In: "entryKind k v = KIn \<Longrightarrow> whereEntry q k v f = Inr (q @ [WhereIn f (elements v)])"
  by (auto simp: entryKind_def whereEntry.simps split: if_splits)

lemma kind_Nin: "entryKind k v = KNin \<Longrightarrow> whereEntry q k v f = Inr (q @ [WhereNotIn f (elements v)])"
  by (auto simp: entryKind_def whereEntry.simps split: if_splits)

lemma kind_Cmp: "entryKind k v = KCmp op \<Longrightarrow> whereEntry q k v f = Inr (q @ [Where3 (JStr f) op v])"
  by (auto simp: entryKind_def whereEntry.simps split: if_splits)

lemma kind_And:
  "entryKind k v = KAnd \<Longrightarrow>
   whereEntry q k v f =
     (case assignQueryArrayElements [] (elements v) FnWhere None 0 f of
        Inl err \<Rightarrow> Inl err | Inr inner \<Rightarrow> Inr (q @ [WhereFn inner]))"
  by (auto simp: entryKind_def whereEntry.simps split: if_splits)

lemma kind_Or:
  "entryKind k v = KOr \<Longrightarrow>
   whereEntry q k v f =
     (case assignQueryArrayElements [] (elements v) FnWhere (Some FnOrWhere) 0 f of
        Inl err \<Rightarrow> Inl err | Inr inner \<Rightarrow> Inr (q @ [WhereFn inner]))"
  by (auto simp: entryKind_def whereEntry.simps split: if_splits)

lemma kind_Nor:
  "entryKind k v = KNor \<Longrightarrow>
   whereEntry q k v f =
     (case assignQueryArrayElements [] (elements v) FnWhereNot None 0 f of
        Inl err \<Rightarrow> Inl err | Inr inner \<Rightarrow> Inr (q @ [WhereFn inner]))"
  by (auto simp: entryKind_def whereEntry.simps split: if_splits)

lemma kind_Not:
  "entryKind k v = KNot \<Longrightarrow>
   whereEntry q k v f =
     (case computeQuery [] v f of
        Inl err \<Rightarrow> Inl err | Inr inner \<Rightarrow> Inr (q @ [WhereNotFn inner]))"
  by (auto simp: entryKind_def whereEntry.simps isMapping_def split: if_splits)

lemma kind_Scope:
  "entryKind k v = KScope \<Longrightarrow>
   whereEntry q k v f =
     (case computeQuery [] v k of
        Inl err \<Rightarrow> Inl err | Inr inner \<Rightarrow> Inr (q @ [WhereFn inner]))"
  by (auto simp: entryKind_def whereEntry.simps isMapping_def split: if_splits)

lemma sound_compiled:
  "sound I x f \<Longrightarrow> computeQuery [] x f = Inr (compiled x f) \<and> andOnly I (compiled x f) \<and>
     whereCond I (compiled x f) = (if emits x then Some (evalSpec I x f) else None) \<and>
     (\<not> emits x \<longrightarrow> evalSpec I x f)"
  by (auto simp: sound_def compiled_def)

lemma forEach_map:
  "\<forall>e\<in>set es. \<forall>q. whereEntry q (fst e) (snd e) f = Inr (q @ [st e]) \<Longrightarrow>
   forEachEntry q es f = Inr (q @ map st es)"
  by (induction es arbitrary: q) simp_all

lemma sound_entries:
  assumes "\<forall>e\<in>set es. soundEntry I (fst e) (snd e) f"
  shows "\<exists>c. forEachEntry [] es f = Inr c \<and> andOnly I c \<and>
     whereCond I c = (if \<exists>e\<in>set es. emitsEntry (fst e) (snd e)
                      then Some (\<forall>e\<in>set es. evalEntry I (fst e) (snd e) f) else None) \<and>
     ((\<forall>e\<in>set es. \<not> emitsEntry (fst e) (snd e)) \<longrightarrow> (\<forall>e\<in>set es. evalEntry I (fst e) (snd e) f))"
proof -
  from assms have "\<forall>e\<in>set es. \<exists>s. (\<forall>q. whereEntry q (fst e) (snd e) f = Inr (q @ [s])) \<and>
      stmtCond I s = (if emitsEntry (fst e) (snd e)
                      then Some (And, evalEntry I (fst e) (snd e) f) else None) \<and>
      (\<not> emitsEntry (fst e) (snd e) \<longrightarrow> evalEntry I (fst e) (snd e) f)"
    by (simp add: soundEntry_def)
  then obtain st where st: "\<forall>e\<in>set es. (\<forall>q. whereEntry q (fst e) (snd e) f = Inr (q @ [st e])) \<and>
      stmtCond I (st e) = (if emitsEntry (fst e) (snd e)
                      then Some (And, evalEntry I (fst e) (snd e) f) else None) \<and>
      (\<not> emitsEntry (fst e) (snd e) \<longrightarrow> evalEntry I (fst e) (snd e) f)"
    by (auto dest!: bchoice)
  have run: "forEachEntry [] es f = Inr (map st es)"
    using forEach_map [of es f st "[]"] st by simp
  have ao: "andOnly I (map st es)"
    using st by (auto simp: andOnly_def)
  have none: "(\<forall>s\<in>set (map st es). stmtCond I s = None) \<longleftrightarrow>
      \<not> (\<exists>e\<in>set es. emitsEntry (fst e) (snd e))"
    using st by auto
  have val: "(\<forall>s\<in>set (map st es). condVal (stmtCond I s)) \<longleftrightarrow>
      (\<forall>e\<in>set es. evalEntry I (fst e) (snd e) f)"
    using st by (auto split: if_splits)
  show ?thesis
    using run ao whereCond_and [OF ao] none val st by auto
qed

lemma sound_mapping:
  assumes "\<forall>e\<in>set es. soundEntry I (fst e) (snd e) f"
  shows "sound I (JObj es) f"
proof -
  from sound_entries [OF assms] obtain c where c: "forEachEntry [] es f = Inr c" "andOnly I c"
    "whereCond I c = (if \<exists>e\<in>set es. emitsEntry (fst e) (snd e)
                      then Some (\<forall>e\<in>set es. evalEntry I (fst e) (snd e) f) else None)"
    "(\<forall>e\<in>set es. \<not> emitsEntry (fst e) (snd e)) \<longrightarrow> (\<forall>e\<in>set es. evalEntry I (fst e) (snd e) f)"
    by blast
  have run: "computeQuery [] (JObj es) f = Inr c"
    using c(1) by (simp add: computeQuery.simps)
  have em: "emits (JObj es) \<longleftrightarrow> (\<exists>e\<in>set es. emitsEntry (fst e) (snd e))"
    by (simp add: list_ex_iff)
  have ev: "evalSpec I (JObj es) f \<longleftrightarrow> (\<forall>e\<in>set es. evalEntry I (fst e) (snd e) f)"
    by (simp add: list_all_iff)
  show ?thesis
    unfolding sound_def em ev using run c(2,3,4) by blast
qed

lemma soundEntry_In: "entryKind k v = KIn \<Longrightarrow> soundEntry I k v f"
  by (simp add: soundEntry_def kind_In emitsEntry.simps evalEntry.simps)

lemma soundEntry_Nin: "entryKind k v = KNin \<Longrightarrow> soundEntry I k v f"
  by (simp add: soundEntry_def kind_Nin emitsEntry.simps evalEntry.simps)

lemma soundEntry_Cmp: "entryKind k v = KCmp op \<Longrightarrow> soundEntry I k v f"
  by (simp add: soundEntry_def kind_Cmp emitsEntry.simps evalEntry.simps)

lemma stmtCond_WhereFn_compiled:
  "sound I x f \<Longrightarrow>
   stmtCond I (WhereFn (compiled x f)) = (if emits x then Some (And, evalSpec I x f) else None)"
  using sound_compiled [of I x f] by (simp add: whereCond_def [symmetric])

lemma stmtCond_WhereNotFn_compiled:
  "sound I x f \<Longrightarrow>
   stmtCond I (WhereNotFn (compiled x f)) = (if emits x then Some (And, \<not> evalSpec I x f) else None)"
  using sound_compiled [of I x f] by (simp add: whereCond_def [symmetric])

lemma stmtCond_OrWhereFn_compiled:
  "sound I x f \<Longrightarrow>
   stmtCond I (OrWhereFn (compiled x f)) = (if emits x then Some (Or, evalSpec I x f) else None)"
  using sound_compiled [of I x f] by (simp add: whereCond_def [symmetric])

lemma soundEntry_And:
  assumes k: "entryKind k v = KAnd" and xs: "\<forall>x\<in>set (elements v). sound I x f"
  shows "soundEntry I k v f"
proof -
  let ?g = "map (\<lambda>x. WhereFn (compiled x f)) (elements v)"
  have ok: "\<forall>x\<in>set (elements v). \<exists>c. computeQuery [] x f = Inr c"
    using xs by (auto simp: sound_def)
  have run: "assignQueryArrayElements [] (elements v) FnWhere None 0 f = Inr ?g"
    using assign_const [OF ok, of 0 FnWhere None FnWhere "[]"] by (simp add: fnAt_def)
  have ao: "andOnly I ?g"
    using xs by (auto simp: andOnly_def stmtCond_WhereFn_compiled simp del: stmtCond.simps)
  have none: "(\<forall>s\<in>set ?g. stmtCond I s = None) \<longleftrightarrow> \<not> list_ex emits (elements v)"
    using xs by (auto simp: list_ex_iff stmtCond_WhereFn_compiled simp del: stmtCond.simps)
  have val: "(\<forall>s\<in>set ?g. condVal (stmtCond I s)) \<longleftrightarrow>
      list_all (\<lambda>x. evalSpec I x f) (elements v)"
    using xs sound_compiled [of I _ f]
    by (auto simp: list_all_iff stmtCond_WhereFn_compiled simp del: stmtCond.simps)
  have "stmtCond I (WhereFn ?g) =
      (if list_ex emits (elements v)
       then Some (And, list_all (\<lambda>x. evalSpec I x f) (elements v)) else None)"
    using whereCond_and [OF ao] none val by (simp add: whereCond_def [symmetric])
  moreover have "\<not> list_ex emits (elements v) \<longrightarrow> list_all (\<lambda>x. evalSpec I x f) (elements v)"
    using xs sound_compiled [of I _ f] by (auto simp: list_all_iff list_ex_iff)
  ultimately show ?thesis
    unfolding soundEntry_def using k run
    by (intro exI [of _ "WhereFn ?g"]) (simp add: kind_And emitsEntry.simps evalEntry.simps)
qed

lemma soundEntry_Nor:
  assumes k: "entryKind k v = KNor" and xs: "\<forall>x\<in>set (elements v). sound I x f \<and> emits x"
  shows "soundEntry I k v f"
proof -
  let ?g = "map (\<lambda>x. WhereNotFn (compiled x f)) (elements v)"
  have ok: "\<forall>x\<in>set (elements v). \<exists>c. computeQuery [] x f = Inr c"
    using xs by (auto simp: sound_def)
  have run: "assignQueryArrayElements [] (elements v) FnWhereNot None 0 f = Inr ?g"
    using assign_const [OF ok, of 0 FnWhereNot None FnWhereNot "[]"] by (simp add: fnAt_def)
  have ao: "andOnly I ?g"
    using xs by (auto simp: andOnly_def stmtCond_WhereNotFn_compiled simp del: stmtCond.simps)
  have none: "(\<forall>s\<in>set ?g. stmtCond I s = None) \<longleftrightarrow> \<not> list_ex emits (elements v)"
    using xs by (auto simp: list_ex_iff stmtCond_WhereNotFn_compiled simp del: stmtCond.simps)
  have val: "(\<forall>s\<in>set ?g. condVal (stmtCond I s)) \<longleftrightarrow>
      \<not> list_ex (\<lambda>x. evalSpec I x f) (elements v)"
    using xs by (auto simp: list_ex_iff stmtCond_WhereNotFn_compiled simp del: stmtCond.simps)
  have "stmtCond I (WhereFn ?g) =
      (if list_ex emits (elements v)
       then Some (And, \<not> list_ex (\<lambda>x. evalSpec I x f) (elements v)) else None)"
    using whereCond_and [OF ao] none val by (simp add: whereCond_def [symmetric])
  moreover have "\<not> list_ex emits (elements v) \<longrightarrow> \<not> list_ex (\<lambda>x. evalSpec I x f) (elements v)"
    using xs by (auto simp: list_ex_iff)
  ultimately show ?thesis
    unfolding soundEntry_def using k run
    by (intro exI [of _ "WhereFn ?g"]) (simp add: kind_Nor emitsEntry.simps evalEntry.simps)
qed

lemma soundEntry_Or:
  assumes k: "entryKind k v = KOr" and ne: "elements v \<noteq> []"
    and xs: "\<forall>x\<in>set (elements v). sound I x f \<and> emits x"
  shows "soundEntry I k v f"
proof -
  from ne obtain x0 rest where v: "elements v = x0 # rest" by (cases "elements v") auto
  let ?g = "WhereFn (compiled x0 f) # map (\<lambda>x. OrWhereFn (compiled x f)) rest"
  have ok: "\<forall>x\<in>set (x0 # rest). \<exists>c. computeQuery [] x f = Inr c"
    using xs v by (auto simp: sound_def)
  have run: "assignQueryArrayElements [] (elements v) FnWhere (Some FnOrWhere) 0 f = Inr ?g"
    using assign_or [OF ok] v by simp
  have x0: "stmtCond I (WhereFn (compiled x0 f)) = Some (And, evalSpec I x0 f)"
    using xs v by (simp add: stmtCond_WhereFn_compiled del: stmtCond.simps)
  have rest: "\<forall>s\<in>set (map (\<lambda>x. OrWhereFn (compiled x f)) rest). \<exists>b. stmtCond I s = Some (Or, b)"
    using xs v by (auto simp: stmtCond_OrWhereFn_compiled simp del: stmtCond.simps)
  have val: "(\<exists>s\<in>set (map (\<lambda>x. OrWhereFn (compiled x f)) rest). condVal (stmtCond I s))
      \<longleftrightarrow> (\<exists>x\<in>set rest. evalSpec I x f)"
    using xs v by (auto simp: stmtCond_OrWhereFn_compiled simp del: stmtCond.simps)
  have "closeCond (whereState I None ?g) = Some (list_ex (\<lambda>x. evalSpec I x f) (elements v))"
    using whereState_or_Some [OF rest, of False "evalSpec I x0 f"] x0 val v
    by (simp add: list_ex_iff del: stmtCond.simps)
  then have "stmtCond I (WhereFn ?g) = Some (And, list_ex (\<lambda>x. evalSpec I x f) (elements v))"
    by simp
  moreover have "list_ex emits (elements v)"
    using xs v by (auto simp: list_ex_iff)
  ultimately show ?thesis
    unfolding soundEntry_def using k run
    by (intro exI [of _ "WhereFn ?g"]) (simp add: kind_Or emitsEntry.simps evalEntry.simps)
qed

lemma soundEntry_Not:
  assumes k: "entryKind k v = KNot" and v: "sound I v f" "emits v"
  shows "soundEntry I k v f"
  unfolding soundEntry_def using k v sound_compiled [OF v(1)]
  by (intro exI [of _ "WhereNotFn (compiled v f)"])
    (simp add: kind_Not emitsEntry.simps evalEntry.simps stmtCond_WhereNotFn_compiled
       del: stmtCond.simps)

lemma soundEntry_Scope:
  assumes k: "entryKind k v = KScope" and v: "sound I v k"
  shows "soundEntry I k v f"
  unfolding soundEntry_def using k v sound_compiled [OF v]
  by (intro exI [of _ "WhereFn (compiled v k)"])
    (simp add: kind_Scope emitsEntry.simps evalEntry.simps stmtCond_WhereFn_compiled
       del: stmtCond.simps)

lemma sound_pure:
  "pureSpec spec \<Longrightarrow> definite spec \<Longrightarrow> sound I spec scope"
proof (induction spec arbitrary: scope rule: measure_induct_rule [of size])
  case (less spec scope)
  from less.prems(1) obtain es where spec: "spec = JObj es" by (cases spec) auto
  have "soundEntry I (fst e) (snd e) scope" if e: "e \<in> set es" for e
  proof -
    obtain k v where kv: "e = (k, v)" by (cases e)
    have pe: "pureEntry k v" and de: "definiteEntry k v"
      using less.prems e kv by (auto simp: spec list_all_iff)
    have small: "size v < size spec"
      using size_entry [OF e] kv by (simp add: spec)
    have elt: "size x < size spec" if "x \<in> set (elements v)" for x
      using size_element [OF that] small by simp
    show ?thesis
    proof (cases "entryKind k v")
      case KIn then show ?thesis by (simp add: kv soundEntry_In)
    next
      case KNin then show ?thesis by (simp add: kv soundEntry_Nin)
    next
      case (KCmp op) then show ?thesis by (simp add: kv soundEntry_Cmp)
    next
      case KAnd
      have "\<forall>x\<in>set (elements v). sound I x scope"
        using pe de KAnd less.IH [OF elt]
        by (auto simp: pureEntry.simps definiteEntry.simps list_all_iff)
      then show ?thesis using KAnd by (simp add: kv soundEntry_And)
    next
      case KOr
      have "\<forall>x\<in>set (elements v). sound I x scope \<and> emits x" and "elements v \<noteq> []"
        using pe de KOr less.IH [OF elt]
        by (auto simp: pureEntry.simps definiteEntry.simps list_all_iff)
      then show ?thesis using KOr by (simp add: kv soundEntry_Or)
    next
      case KNor
      have "\<forall>x\<in>set (elements v). sound I x scope \<and> emits x"
        using pe de KNor less.IH [OF elt]
        by (auto simp: pureEntry.simps definiteEntry.simps list_all_iff)
      then show ?thesis using KNor by (simp add: kv soundEntry_Nor)
    next
      case KNot
      have "sound I v scope" "emits v"
        using pe de KNot less.IH [OF small]
        by (auto simp: pureEntry.simps definiteEntry.simps)
      then show ?thesis using KNot by (simp add: kv soundEntry_Not)
    next
      case KScope
      have "sound I v k"
        using pe de KScope less.IH [OF small]
        by (auto simp: pureEntry.simps definiteEntry.simps)
      then show ?thesis using KScope by (simp add: kv soundEntry_Scope)
    next
      case KOther
      then show ?thesis using pe by (simp add: pureEntry.simps)
    qed
  qed
  then show ?case by (simp add: spec sound_mapping)
qed

lemma compiled_all2:
  "list_all2 (\<lambda>x c. computeQuery [] x f = Inr c) xs cs \<Longrightarrow>
   (\<forall>x\<in>set xs. \<exists>c. computeQuery [] x f = Inr c) \<and> map (\<lambda>x. compiled x f) xs = cs"
  by (induction xs cs rule: list_all2_induct) (auto simp: compiled_def)

lemma assign_nor_all2:
  assumes "list_all2 (\<lambda>x c. computeQuery [] x f = Inr c) xs cs"
  shows "assignQueryArrayElements [] xs FnWhereNot None 0 f = Inr (map WhereNotFn cs)"
proof -
  have ok: "\<forall>x\<in>set xs. \<exists>c. computeQuery [] x f = Inr c"
    and cs: "map (\<lambda>x. compiled x f) xs = cs"
    using compiled_all2 [OF assms] by simp_all
  have "assignQueryArrayElements [] xs FnWhereNot None 0 f
      = Inr ([] @ map (\<lambda>x. call_group FnWhereNot (compiled x f)) xs)"
    using ok by (intro assign_const) (auto simp: fnAt_def)
  also have "map (\<lambda>x. call_group FnWhereNot (compiled x f)) xs = map WhereNotFn cs"
    unfolding cs [symmetric] by simp
  finally show ?thesis by simp
qed

lemma withConn_And_not_Or: "withConn And n x \<noteq> Some (Or, v)"
  by (cases x) simp_all

lemma withConn_None: "withConn c n x = None \<longleftrightarrow> x = None"
  by (cases x) simp_all

lemma condVal_withConn:
  "condVal (withConn c n x) = (case x of None \<Rightarrow> True | Some v \<Rightarrow> if n then \<not> v else v)"
  by (cases x) simp_all

lemma selects_nor_group:
  "selects I [WhereFn (map WhereNotFn cs)] \<longleftrightarrow>
     (\<forall>c\<in>set cs. whereCond I c = None \<or> \<not> selects I c)"
proof -
  let ?g = "map WhereNotFn cs"
  have sc: "stmtCond I (WhereNotFn c) = withConn And True (whereCond I c)" for c
    by (simp add: whereCond_def)
  have ao: "andOnly I ?g"
    by (auto simp: andOnly_def sc withConn_And_not_Or simp del: stmtCond.simps)
  have none: "(\<forall>s\<in>set ?g. stmtCond I s = None) \<longleftrightarrow> (\<forall>c\<in>set cs. whereCond I c = None)"
    by (auto simp: sc withConn_None simp del: stmtCond.simps)
  have val: "(\<forall>s\<in>set ?g. condVal (stmtCond I s)) \<longleftrightarrow>
      (\<forall>c\<in>set cs. whereCond I c = None \<or> \<not> selects I c)"
    by (auto simp: sc selects_def condVal_withConn simp del: stmtCond.simps split: option.splits)
  have "whereCond I [WhereFn ?g] =
     (if \<forall>c\<in>set cs. whereCond I c = None then None
      else Some (\<forall>c\<in>set cs. whereCond I c = None \<or> \<not> selects I c))"
    using whereCond_and [OF ao] none val
    by (simp add: whereCond_def del: stmtCond.simps) (simp add: whereCond_def [symmetric])
  then show ?thesis by (auto simp: selects_def)
qed

section \<open>The compiled predicate against direct evaluation\<close>

text \<open>
  C1 (as stated, refuted). The claim ranges over every spec of the fragment. Four specs
  of the fragment on which the compiled clause and the direct evaluation disagree for
  the example row: an empty \<^verbatim>\<open>$or\<close> compiles to an empty group, which is left out, so
  the row is selected although no alternative holds; an \<^verbatim>\<open>$or\<close> whose first alternative
  is the empty mapping compiles to the second alternative alone; \<^verbatim>\<open>$not\<close> and \<^verbatim>\<open>$nor\<close>
  of the empty mapping negate an empty group, which is left out as well.
\<close>

theorem compiled_differs_from_oracle:
  "pureSpec (JObj [(''$or'', JArr [])]) \<and>
   computeQuery [] (JObj [(''$or'', JArr [])]) '''' = Inr [WhereFn []] \<and>
   selects exampleRow [WhereFn []] \<and>
   \<not> evalSpec exampleRow (JObj [(''$or'', JArr [])]) '''' \<and>
   pureSpec (JObj [(''$or'', JArr [JObj [], JObj [(''age'', JObj [(''$gt'', JNum 50)])]])]) \<and>
   computeQuery [] (JObj [(''$or'', JArr [JObj [], JObj [(''age'', JObj [(''$gt'', JNum 50)])]])]) ''''
     = Inr [WhereFn [WhereFn [], OrWhereFn [WhereFn [Where3 (JStr ''age'') ''>'' (JNum 50)]]]] \<and>
   \<not> selects exampleRow
       [WhereFn [WhereFn [], OrWhereFn [WhereFn [Where3 (JStr ''age'') ''>'' (JNum 50)]]]] \<and>
   evalSpec exampleRow
     (JObj [(''$or'', JArr [JObj [], JObj [(''age'', JObj [(''$gt'', JNum 50)])]])]) '''' \<and>
   pureSpec (JObj [(''$not'', JObj [])]) \<and>
   computeQuery [] (JObj [(''$not'', JObj [])]) '''' = Inr [WhereNotFn []] \<and>
   selects exampleRow [WhereNotFn []] \<and>
   \<not> evalSpec exampleRow (JObj [(''$not'', JObj [])]) '''' \<and>
   pureSpec (JObj [(''$nor'', JArr [JObj []])]) \<and>
   computeQuery [] (JObj [(''$nor'', JArr [JObj []])]) '''' = Inr [WhereFn [WhereNotFn []]] \<and>
   selects exampleRow [WhereFn [WhereNotFn []]] \<and>
   \<not> evalSpec exampleRow (JObj [(''$nor'', JArr [JObj []])]) ''''"
  by (simp add: computeQuery.simps whereEntry.simps selects_def whereCond_def entryKind_def
      pureEntry.simps evalEntry.simps isMapping_def exampleRow_def)

text \<open>
  C1 (amended). For every spec of the fragment in which no \<^verbatim>\<open>$or\<close> sequence is empty
  and every element of an \<^verbatim>\<open>$or\<close> or \<^verbatim>\<open>$nor\<close> sequence and every operand of \<^verbatim>\<open>$not\<close>
  emits a condition, \<open>computeQuery\<close> succeeds and the clause it builds selects a row
  exactly when the direct evaluation of the spec holds for that row, whatever the
  (two-valued) verdicts of the store on the atomic comparisons and whatever the scope
  field it starts from.
\<close>

theorem compiled_matches_oracle:
  "pureSpec spec \<and> definite spec \<Longrightarrow>
   \<exists>q. computeQuery [] spec scope = Inr q \<and> selects I q = evalSpec I spec scope"
  using sound_pure [of spec I scope] by (auto simp: sound_def selects_def)

theorem compiled_matches_oracle_witness:
  "pureSpec exampleSpec \<and> definite exampleSpec \<and> evalSpec exampleRow exampleSpec '''' \<and>
   (\<exists>q. computeQuery [] exampleSpec '''' = Inr q \<and>
        selects exampleRow q = evalSpec exampleRow exampleSpec '''')"
proof -
  have h: "pureSpec exampleSpec \<and> definite exampleSpec"
    by (simp add: exampleSpec_def entryKind_def isMapping_def pureEntry.simps
        definiteEntry.simps emitsEntry.simps)
  have e: "evalSpec exampleRow exampleSpec ''''"
    by (simp add: exampleSpec_def entryKind_def isMapping_def evalEntry.simps exampleRow_def)
  show ?thesis
    using h e compiled_matches_oracle [OF h, of "''''" exampleRow] by simp
qed

section \<open>The group of a \<^verbatim>\<open>$nor\<close> entry\<close>

text \<open>
  C5 (as stated, refuted). \<^verbatim>\<open>{$nor: [{}]}\<close>: the element \<^verbatim>\<open>{}\<close> compiles to the empty
  clause, which selects the example row, so NOT of it does not hold for the row; the
  group is a negated empty group, which is left out, and the row is selected.
\<close>

theorem nor_group_of_empty_element:
  "whereEntry [] ''$nor'' (JArr [JObj []]) '''' = Inr [WhereFn [WhereNotFn []]] \<and>
   computeQuery [] (JObj []) '''' = Inr [] \<and>
   selects exampleRow [] \<and>
   selects exampleRow [WhereFn [WhereNotFn []]]"
  by (simp add: whereEntry.simps computeQuery.simps selects_def whereCond_def)

text \<open>
  C5 (amended). For a \<^verbatim>\<open>$nor\<close> entry whose value is the sequence \<open>xs\<close> of sub-specs
  compiling to \<open>cs\<close>, one group is emitted that holds, in order, the negated group
  (\<^verbatim>\<open>whereNot\<close>) of every element, the first like the others. A row satisfies the group
  exactly when no element that compiles to a condition selects it; an element that
  compiles to no condition is left out. When every element compiles to a condition,
  that is: exactly when NOT of every element holds for the row.
\<close>

theorem nor_group_negates_every_element:
  "list_all2 (\<lambda>x c. computeQuery [] x scope = Inr c) xs cs \<Longrightarrow>
   whereEntry q ''$nor'' (JArr xs) scope = Inr (q @ [WhereFn (map WhereNotFn cs)]) \<and>
   (selects I [WhereFn (map WhereNotFn cs)] \<longleftrightarrow>
      list_all (\<lambda>c. whereCond I c = None \<or> \<not> selects I c) cs) \<and>
   (list_all (\<lambda>c. whereCond I c \<noteq> None) cs \<longrightarrow>
      (selects I [WhereFn (map WhereNotFn cs)] \<longleftrightarrow> list_all (\<lambda>c. \<not> selects I c) cs))"
proof -
  assume c: "list_all2 (\<lambda>x c. computeQuery [] x scope = Inr c) xs cs"
  have shape: "whereEntry q ''$nor'' (JArr xs) scope = Inr (q @ [WhereFn (map WhereNotFn cs)])"
    using assign_nor_all2 [OF c] by (simp add: whereEntry.simps)
  have sem: "selects I [WhereFn (map WhereNotFn cs)] \<longleftrightarrow>
      list_all (\<lambda>c. whereCond I c = None \<or> \<not> selects I c) cs"
    using selects_nor_group [of I cs] by (simp add: list_all_iff)
  have "list_all (\<lambda>c. whereCond I c = None \<or> \<not> selects I c) cs
      \<longleftrightarrow> list_all (\<lambda>c. \<not> selects I c) cs"
    if "list_all (\<lambda>c. whereCond I c \<noteq> None) cs"
    using that by (simp only: list_all_iff) blast
  then show ?thesis using shape sem by blast
qed

theorem nor_group_negates_every_element_witness:
  "list_all2 (\<lambda>x c. computeQuery [] x ''age'' = Inr c)
     [JObj [(''$gte'', JNum 41)], JObj [(''$ne'', JNum 40)]]
     [[Where3 (JStr ''age'') ''>='' (JNum 41)], [Where3 (JStr ''age'') ''!='' (JNum 40)]] \<and>
   whereEntry [] ''$nor'' (JArr [JObj [(''$gte'', JNum 41)], JObj [(''$ne'', JNum 40)]]) ''age''
     = Inr [WhereFn [WhereNotFn [Where3 (JStr ''age'') ''>='' (JNum 41)],
                     WhereNotFn [Where3 (JStr ''age'') ''!='' (JNum 40)]]] \<and>
   selects exampleRow
     [WhereFn [WhereNotFn [Where3 (JStr ''age'') ''>='' (JNum 41)],
               WhereNotFn [Where3 (JStr ''age'') ''!='' (JNum 40)]]] \<and>
   \<not> selects exampleRow [Where3 (JStr ''age'') ''>='' (JNum 41)] \<and>
   \<not> selects exampleRow [Where3 (JStr ''age'') ''!='' (JNum 40)]"
proof -
  have h: "list_all2 (\<lambda>x c. computeQuery [] x ''age'' = Inr c)
     [JObj [(''$gte'', JNum 41)], JObj [(''$ne'', JNum 40)]]
     [[Where3 (JStr ''age'') ''>='' (JNum 41)], [Where3 (JStr ''age'') ''!='' (JNum 40)]]"
    by (simp add: computeQuery.simps whereEntry.simps)
  show ?thesis
    using h nor_group_negates_every_element [OF h, of "[]" exampleRow]
    by (simp add: selects_def whereCond_def exampleRow_def)
qed

section \<open>createQuery in counting mode\<close>

lemma entryShape_snoc: "\<not> paging s \<Longrightarrow> entryShape q k v f (Inr (q @ [s]))"
  by (simp add: entryShape_def)

lemma entryShape_same: "entryShape q k v f (Inr q)"
  by (simp add: entryShape_def)

lemma entryShape_Inl: "entryShape q k v f (Inl e)"
  by (simp add: entryShape_def)

lemma entryShape_assign:
  "entryShape q k v f
     (case assignQueryArrayElements [] (elements v) fe eo 0 f of
        Inl err \<Rightarrow> Inl err | Inr inner \<Rightarrow> Inr (q @ [WhereFn inner]))"
  by (auto simp: entryShape_def split: sum.splits)

lemma entryShape_not:
  "entryShape q k v f
     (case computeQuery [] v f of
        Inl err \<Rightarrow> Inl err | Inr inner \<Rightarrow> Inr (q @ [WhereNotFn inner]))"
  by (auto simp: entryShape_def split: sum.splits)

lemma entryShape_scope:
  "entryShape q k v f
     (case computeQuery [] v k of
        Inl err \<Rightarrow> Inl err | Inr inner \<Rightarrow> Inr (q @ [WhereFn inner]))"
  by (auto simp: entryShape_def split: sum.splits)

lemma entryShape_raw:
  "entryShape q k v f
     (case getProp v c of
        Inl err \<Rightarrow> Inl err
      | Inr x \<Rightarrow> (case getProp v b of Inl err \<Rightarrow> Inl err | Inr y \<Rightarrow> Inr (q @ [WhereRaw x y])))"
  by (auto simp: entryShape_def split: sum.splits)

lemma entryShape_if:
  "(c \<Longrightarrow> entryShape q k v f a) \<Longrightarrow> (\<not> c \<Longrightarrow> entryShape q k v f b)
   \<Longrightarrow> entryShape q k v f (if c then a else b)"
  by simp

lemma paging_atoms:
  "\<not> paging (WhereIn c vs)" "\<not> paging (WhereNotIn c vs)" "\<not> paging (Where3 col op x)"
  "\<not> paging (WhereNotNull c)" "\<not> paging (WhereNull c)" "\<not> paging (WhereNot2 c x)"
  "\<not> paging (WhereRaw x y)" "\<not> paging (Where2 c x)"
  by simp_all

lemma whereEntry_entryShape: "entryShape q k v f (whereEntry q k v f)"
  unfolding whereEntry.simps
  by (intro entryShape_if entryShape_snoc entryShape_same entryShape_assign
      entryShape_not entryShape_scope entryShape_raw paging_atoms)

lemma extends_refl: "extends q q"
  by (simp add: extends_def)

lemma extends_trans: "extends q q' \<Longrightarrow> extends q' q'' \<Longrightarrow> extends q q''"
  by (auto simp: extends_def)

lemma extends_snoc: "\<not> paging s \<Longrightarrow> extends q (q @ [s])"
  by (simp add: extends_def)

lemma extends_nil: "extends [] w \<longleftrightarrow> \<not> list_ex paging w"
  by (simp add: extends_def)

lemma call_group_paging: "paging (call_group m g) = list_ex paging g"
  by (cases m) simp_all

lemma assign_extends:
  assumes sub: "\<And>x q f q'. x \<in> set xs \<Longrightarrow> computeQuery q x f = Inr q' \<Longrightarrow> extends q q'"
    and run: "assignQueryArrayElements b xs fe eo i f = Inr q'"
  shows "extends b q'"
  using sub run
proof (induction xs arbitrary: b i)
  case Nil
  then show ?case by (simp add: extends_refl)
next
  case (Cons x xs)
  let ?m = "if i = 0 then fe else (case eo of None \<Rightarrow> fe | Some other \<Rightarrow> other)"
  from Cons.prems(2) obtain inner where
    inner: "computeQuery [] x f = Inr inner" and
    run: "assignQueryArrayElements (b @ [call_group ?m inner]) xs fe eo (Suc i) f = Inr q'"
    by (auto simp: Let_def split: sum.splits)
  have "extends [] inner" using Cons.prems(1) [of x "[]" f inner] inner by simp
  then have "extends b (b @ [call_group ?m inner])"
    by (intro extends_snoc) (simp add: call_group_paging extends_nil)
  moreover have "extends (b @ [call_group ?m inner]) q'"
  proof (rule Cons.IH [OF _ run])
    fix y q f q'
    assume "y \<in> set xs" and "computeQuery q y f = Inr q'"
    then show "extends q q'" using Cons.prems(1) [of y q f q'] by simp
  qed
  ultimately show ?case by (rule extends_trans)
qed

lemma forEach_extends:
  assumes sub: "\<And>e q q'. e \<in> set es \<Longrightarrow> whereEntry q (fst e) (snd e) f = Inr q' \<Longrightarrow> extends q q'"
    and run: "forEachEntry q es f = Inr q'"
  shows "extends q q'"
  using sub run
proof (induction es arbitrary: q)
  case Nil
  then show ?case by (simp add: extends_refl)
next
  case (Cons e es)
  from Cons.prems(2) obtain q1 where
    q1: "whereEntry q (fst e) (snd e) f = Inr q1" and run: "forEachEntry q1 es f = Inr q'"
    by (auto split: sum.splits)
  have "extends q q1" using Cons.prems(1) [of e q q1] q1 by simp
  moreover have "extends q1 q'"
  proof (rule Cons.IH [OF _ run])
    fix e' q q'
    assume "e' \<in> set es" and "whereEntry q (fst e') (snd e') f = Inr q'"
    then show "extends q q'" using Cons.prems(1) [of e' q q'] by simp
  qed
  ultimately show ?case by (rule extends_trans)
qed

lemma computeQuery_extends:
  "computeQuery q query f = Inr q' \<Longrightarrow> extends q q'"
proof (induction query arbitrary: q f q' rule: measure_induct_rule [of size])
  case (less query q f q')
  show ?case
  proof (cases "\<not> truthy query \<or> typeof query \<noteq> ''object'' \<or> isArray query")
    case True
    then show ?thesis using less.prems by (simp add: computeQuery.simps extends_refl)
  next
    case False
    then obtain es where es: "query = JObj es" by (cases query) auto
    have run: "forEachEntry q es f = Inr q'"
      using less.prems by (simp add: es computeQuery.simps)
    have entry: "extends p p'" if e: "e \<in> set es"
      and w: "whereEntry p (fst e) (snd e) f = Inr p'" for e p p'
    proof -
      have small: "size (snd e) < size query"
        using size_entry [OF e] by (simp add: es)
      have sub: "extends [] g" if "computeQuery [] (snd e) f' = Inr g" for g f'
        using less.IH [OF small that] .
      have grp: "extends [] g"
        if g: "assignQueryArrayElements [] (elements (snd e)) fe eo 0 f = Inr g" for g fe eo
      proof (rule assign_extends [OF _ g])
        fix x q f q'
        assume "x \<in> set (elements (snd e))" and "computeQuery q x f = Inr q'"
        then show "extends q q'"
          using less.IH [of x q f q'] size_element [of x "snd e"] small by simp
      qed
      have "entryShape p (fst e) (snd e) f (Inr p')"
        using whereEntry_entryShape [of p "fst e" "snd e" f] w by simp
      then consider "p' = p" | s where "p' = p @ [s]" "\<not> paging s"
        | s g where "p' = p @ [s]" "s = WhereFn g \<or> s = WhereNotFn g" "extends [] g"
        unfolding entryShape_def using sub grp by auto
      then show ?thesis
      proof cases
        case 1
        then show ?thesis by (simp add: extends_refl)
      next
        case 2
        then show ?thesis by (simp add: extends_snoc)
      next
        case 3
        then have "\<not> paging s" by (auto simp: extends_nil)
        then show ?thesis using 3 by (simp add: extends_snoc)
      qed
    qed
    show ?thesis by (rule forEach_extends [OF entry run])
  qed
qed

lemma searchEach_extends: "extends q (searchEach q flds i s)"
proof (induction flds arbitrary: q i)
  case Nil
  then show ?case by (simp add: extends_refl)
next
  case (Cons fld rest)
  let ?s = "if i = 0 then Where3 fld ''like'' (JStr (''%'' @ s @ ''%''))
            else OrWhere3 fld ''like'' (JStr (''%'' @ s @ ''%''))"
  have "extends q (q @ [?s])" by (rule extends_snoc) simp
  moreover have "extends (q @ [?s]) (searchEach (q @ [?s]) rest (Suc i) s)" by (rule Cons)
  ultimately have "extends q (searchEach (q @ [?s]) rest (Suc i) s)" by (rule extends_trans)
  then show ?case by simp
qed

lemma createQuery_counting:
  "createQuery a (Some ps) True =
     (case computeQuery [Count]
             (if truthy (lookup ps ''query'')
              then objectAssign (lookup ps ''query'') else JObj []) '''' of
        Inl err \<Rightarrow> Inl err
      | Inr q1 \<Rightarrow>
          (if typeof (lookup ps ''search'') = ''string''
               \<and> lookup ps ''search'' \<noteq> JStr ''''
               \<and> truthy (lookup ps ''searchFields'')
           then (if isArray (lookup ps ''searchFields'')
                 then Inr (searchEach q1 (elements (lookup ps ''searchFields'')) 0
                             (case lookup ps ''search'' of JStr s \<Rightarrow> s | _ \<Rightarrow> ''''))
                 else Inl TypeError)
           else Inr q1))"
  by (simp add: createQuery_def Let_def split: sum.splits)

text \<open>
  C6. In counting mode the query \<open>createQuery\<close> assembles starts with the row-count
  aggregate and holds no ordering, no limit and no offset statement, at any depth,
  whatever the params supply.
\<close>

theorem counting_suppresses_paging:
  "createQuery a params True = Inr q \<Longrightarrow>
   (\<exists>w. q = Count # w) \<and> \<not> list_ex paging q"
proof -
  assume run: "createQuery a params True = Inr q"
  have "extends [Count] q"
  proof (cases params)
    case None
    then show ?thesis using run by (simp add: createQuery_def extends_refl)
  next
    case (Some ps)
    then obtain q1 where q1: "computeQuery [Count]
                  (if truthy (lookup ps ''query'')
                   then objectAssign (lookup ps ''query'') else JObj []) '''' = Inr q1"
      and q: "q = q1 \<or> (\<exists>flds s. q = searchEach q1 flds 0 s)"
      using run unfolding Some createQuery_counting
      by (auto split: sum.splits if_splits)
    have "extends [Count] q1" by (rule computeQuery_extends [OF q1])
    moreover have "extends q1 q" using q by (auto simp: extends_refl searchEach_extends)
    ultimately show ?thesis by (rule extends_trans)
  qed
  then show ?thesis by (auto simp: extends_def)
qed

theorem counting_suppresses_paging_witness:
  "createQuery exampleAdapter (Some exampleParams) True
     = Inr [Count, WhereFn [Where3 (JStr ''age'') ''>'' (JNum 30)],
            Where3 (JStr ''name'') ''like'' (JStr ''%an%''),
            OrWhere3 (JStr ''email'') ''like'' (JStr ''%an%'')] \<and>
   \<not> list_ex paging
       [Count, WhereFn [Where3 (JStr ''age'') ''>'' (JNum 30)],
        Where3 (JStr ''name'') ''like'' (JStr ''%an%''),
        OrWhere3 (JStr ''email'') ''like'' (JStr ''%an%'')] \<and>
   createQuery exampleAdapter (Some exampleParams) False
     = Inr [WhereFn [Where3 (JStr ''age'') ''>'' (JNum 30)],
            Where3 (JStr ''name'') ''like'' (JStr ''%an%''),
            OrWhere3 (JStr ''email'') ''like'' (JStr ''%an%''),
            OrderBy ''createdAt'' ''desc'', OrderBy ''name'' ''asc'',
            Limit (JNum 10), Offset (JNum 5)]"
proof -
  have h: "createQuery exampleAdapter (Some exampleParams) True
     = Inr [Count, WhereFn [Where3 (JStr ''age'') ''>'' (JNum 30)],
            Where3 (JStr ''name'') ''like'' (JStr ''%an%''),
            OrWhere3 (JStr ''email'') ''like'' (JStr ''%an%'')]"
    by (simp add: createQuery_def exampleParams_def computeQuery.simps whereEntry.simps)
  have n: "createQuery exampleAdapter (Some exampleParams) False
     = Inr [WhereFn [Where3 (JStr ''age'') ''>'' (JNum 30)],
            Where3 (JStr ''name'') ''like'' (JStr ''%an%''),
            OrWhere3 (JStr ''email'') ''like'' (JStr ''%an%''),
            OrderBy ''createdAt'' ''desc'', OrderBy ''name'' ''asc'',
            Limit (JNum 10), Offset (JNum 5)]"
    by (simp add: createQuery_def exampleParams_def exampleAdapter_def computeQuery.simps
        whereEntry.simps isNumber_def)
  show ?thesis
    using h n counting_suppresses_paging [OF h] by simp
qed

section \<open>insertMany\<close>

lemmas ex_simps = exampleBackend_def exampleDb_def exampleAdapter_def Let_def

lemma insertAll_Trx_ok:
  "pending d = Some w \<Longrightarrow> runInserts B w es = Inr (w', results) \<Longrightarrow>
   insertAll B Trx d es = (Inr results, d\<lparr>pending := Some w'\<rparr>)"
proof (induction es arbitrary: d w results)
  case Nil
  then show ?case by simp
next
  case (Cons e es)
  from Cons.prems(2) obtain w1 res results1 where
    e: "insertRow B w e = Inr (w1, res)" and
    rest: "runInserts B w1 es = Inr (w', results1)" and
    r: "results = res # results1"
    by (auto split: sum.splits prod.splits)
  have "insertAll B Trx (d\<lparr>pending := Some w1\<rparr>) es
      = (Inr results1, d\<lparr>pending := Some w1\<rparr>\<lparr>pending := Some w'\<rparr>)"
    by (rule Cons.IH [OF _ rest]) simp
  then show ?case using Cons.prems(1) e r by simp
qed

lemma insertAll_Trx_fail:
  "pending d = Some w \<Longrightarrow> runInserts B w es = Inl err \<Longrightarrow>
   \<exists>p. insertAll B Trx d es = (Inl err, d\<lparr>pending := p\<rparr>)"
proof (induction es arbitrary: d w)
  case Nil
  then show ?case by simp
next
  case (Cons e es)
  show ?case
  proof (cases "insertRow B w e")
    case (Inl err')
    then have "err' = err" using Cons.prems(2) by simp
    then have "insertAll B Trx d (e # es) = (Inl err, d\<lparr>pending := Some w\<rparr>)"
      using Inl Cons.prems(1) by simp
    then show ?thesis by blast
  next
    case (Inr x)
    then obtain w1 res where e: "insertRow B w e = Inr (w1, res)" by (cases x) auto
    then have rest: "runInserts B w1 es = Inl err"
      using Cons.prems(2) by (auto split: sum.splits prod.splits)
    have "\<exists>p. insertAll B Trx (d\<lparr>pending := Some w1\<rparr>) es
        = (Inl err, d\<lparr>pending := Some w1\<rparr>\<lparr>pending := p\<rparr>)"
      by (rule Cons.IH [OF _ rest]) simp
    then obtain p where "insertAll B Trx (d\<lparr>pending := Some w1\<rparr>) es = (Inl err, d\<lparr>pending := p\<rparr>)"
      by auto
    then have "insertAll B Trx d (e # es) = (Inl err, d\<lparr>pending := p\<rparr>)"
      using Cons.prems(1) e by simp
    then show ?thesis by blast
  qed
qed

lemma runInserts_length:
  "runInserts B w es = Inr (w', results) \<Longrightarrow> length results = length es"
  by (induction es arbitrary: w results) (auto split: sum.splits prod.splits)

lemma mapUnwrap_singletons:
  "list_all2 (\<lambda>res i. \<exists>x. res = [x] \<and> unwrapId a x = Inr i) results ids \<Longrightarrow>
   mapUnwrap a (concat results) = Inr ids"
  by (induction results ids rule: list_all2_induct) auto

text \<open>
  C3. All inserts of \<open>insertMany\<close> run on the handle of one transaction. When one of
  them fails, the call returns that one error and the committed rows are what they
  were: no entity of the batch is persisted. When all succeed, the rows they produce
  are committed together. Each insert then resolved with an array; when each array
  holds one value, the identities returned are those values, unwrapped, in the order
  of the entities.
\<close>

theorem insertMany_atomic:
  "(runInserts B (committed d) entities = Inl err \<longrightarrow>
      insertMany B a d entities returnEntities = (Inl err, d\<lparr>pending := None\<rparr>)) \<and>
   (runInserts B (committed d) entities = Inr (rows, results) \<and>
    list_all2 (\<lambda>res i. \<exists>x. res = [x] \<and> unwrapId a x = Inr i) results ids \<longrightarrow>
      insertMany B a d entities False = (Inr ids, d\<lparr>committed := rows, pending := None\<rparr>) \<and>
      length ids = length entities)"
proof (intro conjI impI)
  assume f: "runInserts B (committed d) entities = Inl err"
  obtain p where "insertAll B Trx (d\<lparr>pending := Some (committed d)\<rparr>) entities
      = (Inl err, d\<lparr>pending := Some (committed d)\<rparr>\<lparr>pending := p\<rparr>)"
    using insertAll_Trx_fail [OF _ f, of "d\<lparr>pending := Some (committed d)\<rparr>"] by auto
  then show "insertMany B a d entities returnEntities = (Inl err, d\<lparr>pending := None\<rparr>)"
    by (simp add: insertMany_def transaction_def)
next
  assume h: "runInserts B (committed d) entities = Inr (rows, results) \<and>
    list_all2 (\<lambda>res i. \<exists>x. res = [x] \<and> unwrapId a x = Inr i) results ids"
  then have run: "insertAll B Trx (d\<lparr>pending := Some (committed d)\<rparr>) entities
      = (Inr results, d\<lparr>pending := Some (committed d)\<rparr>\<lparr>pending := Some rows\<rparr>)"
    using insertAll_Trx_ok [of "d\<lparr>pending := Some (committed d)\<rparr>" "committed d" B entities rows results]
    by simp
  show "insertMany B a d entities False = (Inr ids, d\<lparr>committed := rows, pending := None\<rparr>)"
    using run h mapUnwrap_singletons [of a results ids]
    by (simp add: insertMany_def transaction_def)
  show "length ids = length entities"
    using h runInserts_length [of B "committed d" entities rows results]
    by (auto dest: list_all2_lengthD)
qed

theorem insertMany_atomic_witness:
  "runInserts exampleBackend (committed exampleDb)
      [JObj [(''id'', JNum 2)], JObj [(''id'', JNum 1)], JObj [(''id'', JNum 3)]]
     = Inl (StoreError ''unique constraint'') \<and>
   insertMany exampleBackend exampleAdapter exampleDb
      [JObj [(''id'', JNum 2)], JObj [(''id'', JNum 1)], JObj [(''id'', JNum 3)]] False
     = (Inl (StoreError ''unique constraint''), exampleDb) \<and>
   runInserts exampleBackend (committed exampleDb)
      [JObj [(''id'', JNum 5), (''name'', JStr ''e'')], JObj [(''name'', JStr ''c'')]]
     = Inr ([JObj [(''id'', JNum 1), (''name'', JStr ''a'')],
             JObj [(''id'', JNum 5), (''name'', JStr ''e'')],
             JObj [(''id'', JNum 3), (''name'', JStr ''c'')]],
            [[JObj [(''id'', JNum 5)]], [JObj [(''id'', JNum 3)]]]) \<and>
   insertMany exampleBackend exampleAdapter exampleDb
      [JObj [(''id'', JNum 5), (''name'', JStr ''e'')], JObj [(''name'', JStr ''c'')]] False
     = (Inr [JNum 5, JNum 3],
        \<lparr> committed = [JObj [(''id'', JNum 1), (''name'', JStr ''a'')],
                       JObj [(''id'', JNum 5), (''name'', JStr ''e'')],
                       JObj [(''id'', JNum 3), (''name'', JStr ''c'')]],
          pending = None \<rparr>)"
proof -
  let ?bad = "[JObj [(''id'', JNum 2)], JObj [(''id'', JNum 1)], JObj [(''id'', JNum 3)]]"
  let ?good = "[JObj [(''id'', JNum 5), (''name'', JStr ''e'')], JObj [(''name'', JStr ''c'')]]"
  let ?rows = "[JObj [(''id'', JNum 1), (''name'', JStr ''a'')],
             JObj [(''id'', JNum 5), (''name'', JStr ''e'')],
             JObj [(''id'', JNum 3), (''name'', JStr ''c'')]]"
  have f: "runInserts exampleBackend (committed exampleDb) ?bad = Inl (StoreError ''unique constraint'')"
    by (simp add: ex_simps)
  have g: "runInserts exampleBackend (committed exampleDb) ?good
     = Inr (?rows, [[JObj [(''id'', JNum 5)]], [JObj [(''id'', JNum 3)]]])"
    by (simp add: ex_simps)
  have u: "list_all2 (\<lambda>res i. \<exists>x. res = [x] \<and> unwrapId exampleAdapter x = Inr i)
      [[JObj [(''id'', JNum 5)]], [JObj [(''id'', JNum 3)]]] [JNum 5, JNum 3]"
    by (simp add: unwrapId_def exampleAdapter_def)
  show ?thesis
    using f g u
      insertMany_atomic [of exampleBackend exampleDb ?bad "StoreError ''unique constraint''"
        exampleAdapter False ?rows "[[JObj [(''id'', JNum 5)]], [JObj [(''id'', JNum 3)]]]" "[JNum 5, JNum 3]"]
      insertMany_atomic [of exampleBackend exampleDb ?good "StoreError ''unique constraint''"
        exampleAdapter False ?rows "[[JObj [(''id'', JNum 5)]], [JObj [(''id'', JNum 3)]]]" "[JNum 5, JNum 3]"]
    by (simp add: exampleDb_def)
qed

section \<open>removeById\<close>

text \<open>
  C8. \<open>removeById\<close> returns the id and never an error; afterwards no row is selected
  by the identity clause and the other rows are kept; when no row had that identity
  the rows are unchanged; a second call returns the same and leaves the same rows.
\<close>

theorem removeById_idempotent:
  "fst (removeById B a d ident) = Inr ident \<and>
   \<not> list_ex (\<lambda>r. selects (verdict B r) [Where2 (idFieldName a) ident])
       (committed (snd (removeById B a d ident))) \<and>
   filter (\<lambda>r. \<not> selects (verdict B r) [Where2 (idFieldName a) ident])
       (committed (snd (removeById B a d ident)))
     = filter (\<lambda>r. \<not> selects (verdict B r) [Where2 (idFieldName a) ident]) (committed d) \<and>
   (\<not> list_ex (\<lambda>r. selects (verdict B r) [Where2 (idFieldName a) ident]) (committed d)
      \<longrightarrow> removeById B a d ident = (Inr ident, d)) \<and>
   removeById B a (snd (removeById B a d ident)) ident = removeById B a d ident"
proof -
  let ?m = "\<lambda>r. selects (verdict B r) [Where2 (idFieldName a) ident]"
  have same: "\<not> list_ex ?m (committed d) \<Longrightarrow> filter (\<lambda>r. \<not> ?m r) (committed d) = committed d"
    by (simp add: list_ex_iff filter_id_conv)
  show ?thesis
    using same by (auto simp: removeById_def list_ex_iff)
qed

theorem removeById_idempotent_witness:
  "removeById exampleBackend exampleAdapter exampleDb (JNum 1)
     = (Inr (JNum 1), \<lparr> committed = [], pending = None \<rparr>) \<and>
   \<not> list_ex (\<lambda>r. selects (verdict exampleBackend r) [Where2 (idFieldName exampleAdapter) (JNum 7)])
       (committed exampleDb) \<and>
   removeById exampleBackend exampleAdapter exampleDb (JNum 7) = (Inr (JNum 7), exampleDb) \<and>
   removeById exampleBackend exampleAdapter \<lparr> committed = [], pending = None \<rparr> (JNum 1)
     = (Inr (JNum 1), \<lparr> committed = [], pending = None \<rparr>)"
proof -
  have a: "\<not> list_ex (\<lambda>r. selects (verdict exampleBackend r) [Where2 (idFieldName exampleAdapter) (JNum 7)])
       (committed exampleDb)"
    by (simp add: ex_simps selects_def whereCond_def)
  have r: "removeById exampleBackend exampleAdapter exampleDb (JNum 1)
     = (Inr (JNum 1), \<lparr> committed = [], pending = None \<rparr>)"
    by (simp add: ex_simps removeById_def selects_def whereCond_def)
  show ?thesis
    using a r removeById_idempotent [of exampleBackend exampleAdapter exampleDb "JNum 7"]
      removeById_idempotent [of exampleBackend exampleAdapter exampleDb "JNum 1"]
    by simp
qed

section \<open>insert\<close>

text \<open>
  C9 (as stated, refuted). The statement makes \<^verbatim>\<open>generated = "user"\<close> the condition
  for honouring the caller's id; \<open>insert_entity\<close> never reads \<^verbatim>\<open>generated\<close>. With a
  store-generated key, the entity \<^verbatim>\<open>{id: 7, name: "n"}\<close> and a store that resolves with
  the row number 2, the identity as the specification words it is 2, by which no row
  is found; \<open>insert_entity\<close> re-reads by the caller's 7 and returns the row.
\<close>

theorem insert_identity_differs_from_claim:
  "claimedIdentity autoKeyAdapter (JObj [(''id'', JNum 7), (''name'', JStr ''n'')]) (JNum 2)
     = Inr (JNum 2) \<and>
   resolveIdentity autoKeyAdapter (JObj [(''id'', JNum 7), (''name'', JStr ''n'')]) (JNum 2)
     = Inr (JNum 7) \<and>
   insert_entity rowidBackend autoKeyAdapter exampleDb
       (JObj [(''id'', JNum 7), (''name'', JStr ''n'')])
     = (Inr (JObj [(''id'', JNum 7), (''name'', JStr ''n'')]),
        \<lparr> committed = [JObj [(''id'', JNum 1), (''name'', JStr ''a'')],
                       JObj [(''id'', JNum 7), (''name'', JStr ''n'')]],
          pending = None \<rparr>) \<and>
   findById rowidBackend autoKeyAdapter
       \<lparr> committed = [JObj [(''id'', JNum 1), (''name'', JStr ''a'')],
                      JObj [(''id'', JNum 7), (''name'', JStr ''n'')]],
         pending = None \<rparr>
       (JNum 2)
     = Inr JUndefined"
  by (simp add: claimedIdentity_def resolveIdentity_def unwrapId_def
      autoKeyAdapter_def init_def keyField_def exampleAdapter_def insert_entity_def rowidBackend_def
      exampleBackend_def exampleDb_def findById_def findOne_def createQuery_def computeQuery.simps
      whereEntry.simps selectRows_def selects_def whereCond_def isNumber_def)

lemma findById_scalar:
  assumes "typeof ident \<noteq> ''object''" and "\<not> operatorRule (idFieldName a) ident"
  shows "findById B a d ident =
     Inr (case filter (\<lambda>r. cmp (verdict B r) (JStr (idFieldName a)) ''='' ident) (committed d) of
            [] \<Rightarrow> JUndefined | r # rest \<Rightarrow> r)"
proof -
  have w: "whereEntry [] (idFieldName a) ident '''' = Inr [Where2 (idFieldName a) ident]"
    using assms by (auto simp: whereEntry.simps operatorRule_def dest: isArray_object)
  have q: "createQuery a (Some [(''query'', JObj [(idFieldName a, ident)])]) False
      = Inr [Where2 (idFieldName a) ident]"
    by (simp add: createQuery_def computeQuery.simps w isNumber_def)
  have s: "selects (verdict B r) [Where2 (idFieldName a) ident]
      = cmp (verdict B r) (JStr (idFieldName a)) ''='' ident" for r
    by (simp add: selects_def whereCond_def)
  show ?thesis
    by (simp add: findById_def findOne_def q selectRows_def s)
qed

text \<open>
  C9 (amended). \<open>insert_entity\<close> writes the entity with one insert on the client. When the
  store resolves with a non-empty array: a caller's id that is truthy is the identity,
  whatever the \<^verbatim>\<open>generated\<close> setting; when the entity has no id, the array's first
  value is; in both cases an object is replaced by its identity field. The result is
  what \<open>findById\<close> returns for that identity on the new rows. When the identity is a
  scalar other than \<^verbatim>\<open>null\<close> and the identity field's name meets no operator rule, that
  is the first of the new rows that the store matches on the identity field, or
  \<^verbatim>\<open>undefined\<close> when it matches none. Nothing is said of an id that is present and
  falsy.
\<close>

theorem insert_rereads_by_identity:
  assumes "insertRow B (committed d) (JObj es) = Inr (rows, res0 # rest)"
  shows
    "(truthy (lookup es (idFieldName a)) \<and> unwrapId a (lookup es (idFieldName a)) = Inr ident
        \<longrightarrow> insert_entity B a d (JObj es)
              = (findById B a (d\<lparr>committed := rows\<rparr>) ident, d\<lparr>committed := rows\<rparr>)) \<and>
     (lookup es (idFieldName a) = JUndefined \<and> unwrapId a res0 = Inr ident
        \<longrightarrow> insert_entity B a d (JObj es)
              = (findById B a (d\<lparr>committed := rows\<rparr>) ident, d\<lparr>committed := rows\<rparr>)) \<and>
     (typeof ident \<noteq> ''object'' \<and> \<not> operatorRule (idFieldName a) ident
        \<longrightarrow> findById B a (d\<lparr>committed := rows\<rparr>) ident
              = Inr (case filter (\<lambda>r. cmp (verdict B r) (JStr (idFieldName a)) ''='' ident) rows of
                       [] \<Rightarrow> JUndefined | r # others \<Rightarrow> r))"
proof (intro conjI impI)
  assume "truthy (lookup es (idFieldName a)) \<and> unwrapId a (lookup es (idFieldName a)) = Inr ident"
  then show "insert_entity B a d (JObj es)
      = (findById B a (d\<lparr>committed := rows\<rparr>) ident, d\<lparr>committed := rows\<rparr>)"
    using assms by (simp add: insert_entity_def resolveIdentity_def)
next
  assume "lookup es (idFieldName a) = JUndefined \<and> unwrapId a res0 = Inr ident"
  then show "insert_entity B a d (JObj es)
      = (findById B a (d\<lparr>committed := rows\<rparr>) ident, d\<lparr>committed := rows\<rparr>)"
    using assms by (simp add: insert_entity_def resolveIdentity_def)
next
  assume "typeof ident \<noteq> ''object'' \<and> \<not> operatorRule (idFieldName a) ident"
  then show "findById B a (d\<lparr>committed := rows\<rparr>) ident
      = Inr (case filter (\<lambda>r. cmp (verdict B r) (JStr (idFieldName a)) ''='' ident) rows of
               [] \<Rightarrow> JUndefined | r # others \<Rightarrow> r)"
    using findById_scalar [of ident a B "d\<lparr>committed := rows\<rparr>"] by simp
qed

theorem insert_rereads_by_identity_witness:
  "insertRow exampleBackend (committed exampleDb) (JObj [(''name'', JStr ''b'')])
     = Inr ([JObj [(''id'', JNum 1), (''name'', JStr ''a'')],
             JObj [(''id'', JNum 2), (''name'', JStr ''b'')]], [JObj [(''id'', JNum 2)]]) \<and>
   lookup [(''name'', JStr ''b'')] (idFieldName autoKeyAdapter) = JUndefined \<and>
   unwrapId autoKeyAdapter (JObj [(''id'', JNum 2)]) = Inr (JNum 2) \<and>
   typeof (JNum 2) \<noteq> ''object'' \<and> \<not> operatorRule (idFieldName autoKeyAdapter) (JNum 2) \<and>
   insert_entity exampleBackend autoKeyAdapter exampleDb (JObj [(''name'', JStr ''b'')])
     = (Inr (JObj [(''id'', JNum 2), (''name'', JStr ''b'')]),
        \<lparr> committed = [JObj [(''id'', JNum 1), (''name'', JStr ''a'')],
                       JObj [(''id'', JNum 2), (''name'', JStr ''b'')]],
          pending = None \<rparr>) \<and>
   insertRow exampleBackend (committed exampleDb) (JObj [(''id'', JNum 5), (''name'', JStr ''e'')])
     = Inr ([JObj [(''id'', JNum 1), (''name'', JStr ''a'')],
             JObj [(''id'', JNum 5), (''name'', JStr ''e'')]], [JObj [(''id'', JNum 5)]]) \<and>
   truthy (lookup [(''id'', JNum 5), (''name'', JStr ''e'')] (idFieldName autoKeyAdapter)) \<and>
   unwrapId autoKeyAdapter (lookup [(''id'', JNum 5), (''name'', JStr ''e'')] (idFieldName autoKeyAdapter))
     = Inr (JNum 5) \<and>
   insert_entity exampleBackend autoKeyAdapter exampleDb
       (JObj [(''id'', JNum 5), (''name'', JStr ''e'')])
     = (Inr (JObj [(''id'', JNum 5), (''name'', JStr ''e'')]),
        \<lparr> committed = [JObj [(''id'', JNum 1), (''name'', JStr ''a'')],
                       JObj [(''id'', JNum 5), (''name'', JStr ''e'')]],
          pending = None \<rparr>)"
proof -
  have idf: "idFieldName autoKeyAdapter = ''id''"
    by (simp add: autoKeyAdapter_def init_def keyField_def exampleAdapter_def)
  have i: "insertRow exampleBackend (committed exampleDb) (JObj [(''name'', JStr ''b'')])
     = Inr ([JObj [(''id'', JNum 1), (''name'', JStr ''a'')],
             JObj [(''id'', JNum 2), (''name'', JStr ''b'')]], [JObj [(''id'', JNum 2)]])"
    by (simp add: ex_simps)
  have j: "insertRow exampleBackend (committed exampleDb)
       (JObj [(''id'', JNum 5), (''name'', JStr ''e'')])
     = Inr ([JObj [(''id'', JNum 1), (''name'', JStr ''a'')],
             JObj [(''id'', JNum 5), (''name'', JStr ''e'')]], [JObj [(''id'', JNum 5)]])"
    by (simp add: ex_simps)
  have u: "unwrapId autoKeyAdapter (JObj [(''id'', JNum 2)]) = Inr (JNum 2)"
    "unwrapId autoKeyAdapter (JNum 5) = Inr (JNum 5)"
    by (simp_all add: idf unwrapId_def)
  have p: "\<not> operatorRule (idFieldName autoKeyAdapter) (JNum 2)"
    "\<not> operatorRule (idFieldName autoKeyAdapter) (JNum 5)"
    by (simp_all add: idf operatorRule_def)
  show ?thesis
    using i j u p
      insert_rereads_by_identity [OF i, of autoKeyAdapter "JNum 2"]
      insert_rereads_by_identity [OF j, of autoKeyAdapter "JNum 5"]
    by (simp add: idf ex_simps)
qed

section \<open>createTable\<close>

text \<open>
  C4 (as stated, refuted). With the default options and an existing table, a field of
  an unknown column type makes \<open>createTable\<close> fail after the table was dropped: the
  drop statement has been issued and the table is gone.
\<close>

theorem createTable_drops_before_validation:
  "hasTable exampleSchema None ''users'' \<and>
   fst (createTable exampleBackend exampleAdapter (Some [plainField ''x'' ''bogus''])
          (Some defaultOpts) exampleSchema)
     = Inl (invalidType (plainField ''x'' ''bogus'')) \<and>
   \<not> hasTable (snd (createTable exampleBackend exampleAdapter (Some [plainField ''x'' ''bogus''])
          (Some defaultOpts) exampleSchema)) None ''users'' \<and>
   issued (snd (createTable exampleBackend exampleAdapter (Some [plainField ''x'' ''bogus''])
          (Some defaultOpts) exampleSchema)) = [DropTable None ''users'']"
  by (simp add: createTable_def tableCallback_def schemaCreateTable_def dropTable_def Let_def
      hasTable_def exampleSchema_def exampleAdapter_def exampleBackend_def plainField_def
      defaultOpts_def)

lemma buildColumns_invalid:
  "find (\<lambda>fd. \<not> virtual fd \<and> columnType fd \<notin> set V) fieldList = Some bad \<Longrightarrow>
   buildColumns V tbl fieldList = Inl (invalidType bad)"
  by (induction fieldList arbitrary: tbl) (auto split: if_splits)

text \<open>
  C4 (amended). When the field list holds a non-virtual field whose column type is not
  a property of the table object, \<open>createTable\<close> fails with the error for the first
  such field and no create statement is issued: no table is created and no column is
  applied. The pre-existing table is untouched when \<^verbatim>\<open>opts.dropTableIfExists\<close> is
  \<^verbatim>\<open>false\<close> (or \<open>opts\<close> is \<^verbatim>\<open>null\<close>); otherwise it has been dropped by then, and that
  is the only change.
\<close>

theorem createTable_invalid_type:
  assumes "find (\<lambda>fd. \<not> virtual fd \<and> columnType fd \<notin> set (vocabulary B)) fieldList = Some bad"
  shows "createTable B a (Some fieldList) opts st =
     (Inl (invalidType bad),
      if (case opts of None \<Rightarrow> False | Some os \<Rightarrow> dropTableIfExists os \<noteq> JBool False)
           \<and> hasTable st (schema a) (tableName a)
      then st\<lparr>tables := (tables st)((schema a, tableName a) := None),
              issued := issued st @ [DropTable (schema a) (tableName a)]\<rparr>
      else st)"
  using buildColumns_invalid [OF assms, of "[]"]
  by (simp add: createTable_def tableCallback_def schemaCreateTable_def dropTable_def Let_def)

theorem createTable_invalid_type_witness:
  "find (\<lambda>fd. \<not> virtual fd \<and> columnType fd \<notin> set (vocabulary exampleBackend))
       [plainField ''name'' ''string'', plainField ''x'' ''bogus'']
     = Some (plainField ''x'' ''bogus'') \<and>
   createTable exampleBackend exampleAdapter
       (Some [plainField ''name'' ''string'', plainField ''x'' ''bogus''])
       (Some (defaultOpts\<lparr>dropTableIfExists := JBool False\<rparr>)) exampleSchema
     = (Inl (invalidType (plainField ''x'' ''bogus'')), exampleSchema)"
proof -
  have h: "find (\<lambda>fd. \<not> virtual fd \<and> columnType fd \<notin> set (vocabulary exampleBackend))
       [plainField ''name'' ''string'', plainField ''x'' ''bogus'']
     = Some (plainField ''x'' ''bogus'')"
    by (simp add: exampleBackend_def plainField_def)
  show ?thesis
    using h createTable_invalid_type [OF h, of exampleAdapter
        "Some (defaultOpts\<lparr>dropTableIfExists := JBool False\<rparr>)" exampleSchema]
    by (simp add: defaultOpts_def)
qed

end
